theory Spec2Isabelle
  imports Main "HOL-Library.Word" "HOL-Library.Monad_Syntax"
begin

unbundle bit_operations_syntax

section \<open>Memory, completion events and the event queue\<close>

text \<open>
  The provider is C code on an LP64 machine. Pointers, \<open>uint64_t\<close> and \<open>size_t\<close> values
  are 64-bit words; the \<open>NULL\<close> pointer is \<open>0\<close>. The bytes of an object are a function from
  the byte offset inside the object to the byte stored there. Every function that
  dereferences a pointer returns an \<open>option\<close>: \<open>None\<close> is the dereference of a pointer that
  is \<open>NULL\<close> or not allocated (undefined behaviour in C).
\<close>

type_synonym byte = "8 word"
type_synonym u64 = "64 word"
type_synonym mem = "nat \<Rightarrow> byte"

definition zero_mem :: mem where
  "zero_mem = (\<lambda>_. 0)"

text \<open>\<open>memcpy (dst, src, n)\<close>: the first \<open>n\<close> bytes of \<open>dst\<close> become those of \<open>src\<close>.\<close>

definition memcpy :: "mem \<Rightarrow> mem \<Rightarrow> nat \<Rightarrow> mem" where
  "memcpy dst src n = (\<lambda>i. if i < n then src i else dst i)"

text \<open>A 64-bit field stored at a byte offset, least significant byte first.\<close>

fun le_decode :: "nat \<Rightarrow> nat \<Rightarrow> mem \<Rightarrow> u64" where
  "le_decode 0 off m = 0"
| "le_decode (Suc n) off m = ucast (m off) OR push_bit 8 (le_decode n (Suc off) m)"

definition get_u64 :: "nat \<Rightarrow> mem \<Rightarrow> u64" where
  "get_u64 off m = le_decode 8 off m"

definition put_u64 :: "nat \<Rightarrow> u64 \<Rightarrow> mem \<Rightarrow> mem" where
  "put_u64 off v m =
     (\<lambda>i. if off \<le> i \<and> i < off + 8 then ucast (drop_bit (8 * (i - off)) v) else m i)"

text \<open>A C \<open>int\<close> field (4 bytes, two's complement) stored at a byte offset.\<close>

definition put_i32 :: "nat \<Rightarrow> int \<Rightarrow> mem \<Rightarrow> mem" where
  "put_i32 off v m =
     (\<lambda>i. if off \<le> i \<and> i < off + 4
          then ucast (drop_bit (8 * (i - off)) (word_of_int v :: 32 word)) else m i)"

text \<open>
  \<open>struct psmx_cq_event\<close>: the entry union \<open>cqe\<close>, the \<open>error\<close> flag, the \<open>source\<close> tag and
  the \<open>next\<close> link (\<open>nxt\<close> here; \<open>None\<close> is \<open>NULL\<close>). Events live in the event memory of
  their completion queue: a list of cells, the address of an event being its index.
  \<open>calloc\<close> appends a zeroed cell, \<open>free\<close> empties one.
\<close>

record psmx_cq_event =
  cqe :: mem
  error :: int
  source :: u64
  nxt :: "nat option"

type_synonym evmem = "psmx_cq_event option list"

definition zero_event :: psmx_cq_event where
  "zero_event = \<lparr>cqe = zero_mem, error = 0, source = 0, nxt = None\<rparr>"

definition ev_at :: "evmem \<Rightarrow> nat \<Rightarrow> psmx_cq_event option" where
  "ev_at m a = (if a < length m then m ! a else None)"

definition ev_set :: "evmem \<Rightarrow> nat \<Rightarrow> psmx_cq_event \<Rightarrow> evmem" where
  "ev_set m a e = m[a := Some e]"

definition ev_calloc :: "evmem \<Rightarrow> nat \<times> evmem" where
  "ev_calloc m = (length m, m @ [Some zero_event])"


record psmx_cq_event_queue =
  head :: "nat option"
  tail :: "nat option"

definition psmx_cq_enqueue_event ::
  "evmem \<Rightarrow> psmx_cq_event_queue \<Rightarrow> nat \<Rightarrow> (evmem \<times> psmx_cq_event_queue) option" where
  "psmx_cq_enqueue_event m ceq event =
     (case tail ceq of
        Some t \<Rightarrow>
          (case ev_at m t of
             None \<Rightarrow> None
           | Some te \<Rightarrow> Some (ev_set m t (te\<lparr>nxt := Some event\<rparr>), ceq\<lparr>tail := Some event\<rparr>))
      | None \<Rightarrow> Some (m, ceq\<lparr>head := Some event, tail := Some event\<rparr>))"

definition psmx_cq_dequeue_event ::
  "evmem \<Rightarrow> psmx_cq_event_queue \<Rightarrow> (nat option \<times> evmem \<times> psmx_cq_event_queue) option" where
  "psmx_cq_dequeue_event m ceq =
     (case head ceq of
        None \<Rightarrow> Some (None, m, ceq)
      | Some event \<Rightarrow>
          (case ev_at m event of
             None \<Rightarrow> None
           | Some e \<Rightarrow>
               let ceq1 = ceq\<lparr>head := nxt e\<rparr>;
                   ceq2 = (if head ceq1 = None then ceq1\<lparr>tail := None\<rparr> else ceq1)
               in Some (Some event, ev_set m event (e\<lparr>nxt := None\<rparr>), ceq2)))"

text \<open>
  The events a queue holds, in order: the chain of \<open>next\<close> links from \<open>head\<close>, ending at
  \<open>NULL\<close>, with \<open>tail\<close> pointing to the last event (and \<open>NULL\<close> when there is none).
\<close>

fun chain :: "evmem \<Rightarrow> nat option \<Rightarrow> nat list \<Rightarrow> bool" where
  "chain m p [] = (p = None)"
| "chain m p (x # xs) =
     (p = Some x \<and> (case ev_at m x of None \<Rightarrow> False | Some e \<Rightarrow> chain m (nxt e) xs))"

definition ceq_holds :: "evmem \<Rightarrow> psmx_cq_event_queue \<Rightarrow> nat list \<Rightarrow> bool" where
  "ceq_holds m ceq xs \<longleftrightarrow>
     chain m (head ceq) xs \<and> distinct xs \<and>
     tail ceq = (if xs = [] then None else Some (last xs))"

text \<open>Enqueuing a sequence of events, and dequeuing \<open>n\<close> times, collecting what is returned.\<close>

fun enqueue_events ::
  "evmem \<Rightarrow> psmx_cq_event_queue \<Rightarrow> nat list \<Rightarrow> (evmem \<times> psmx_cq_event_queue) option" where
  "enqueue_events m ceq [] = Some (m, ceq)"
| "enqueue_events m ceq (e # es) =
     (case psmx_cq_enqueue_event m ceq e of
        None \<Rightarrow> None
      | Some (m', ceq') \<Rightarrow> enqueue_events m' ceq' es)"

fun dequeue_events ::
  "evmem \<Rightarrow> psmx_cq_event_queue \<Rightarrow> nat \<Rightarrow> (nat option list \<times> evmem \<times> psmx_cq_event_queue) option" where
  "dequeue_events m ceq 0 = Some ([], m, ceq)"
| "dequeue_events m ceq (Suc n) =
     (case psmx_cq_dequeue_event m ceq of
        None \<Rightarrow> None
      | Some (r, m', ceq') \<Rightarrow>
          (case dequeue_events m' ceq' n of
             None \<Rightarrow> None
           | Some (rs, m'', ceq'') \<Rightarrow> Some (r # rs, m'', ceq'')))"


section \<open>Entry formats\<close>

text \<open>
  Modelled from the spec: the entry structs \<open>fi_cq_entry\<close>, \<open>fi_cq_msg_entry\<close>,
  \<open>fi_cq_data_entry\<close>, \<open>fi_cq_tagged_entry\<close> and \<open>fi_cq_err_entry\<close>, whose declarations
  are in a header that is not part of the sources. The spec gives the shapes:
  context-only; message (+flags, +length); data (+buffer, +flags, +length, +immediate
  data); tagged (+buffer, +flags, +length, +immediate data, +tag); error (context, error
  code, provider error code, immediate data, tag, overflow length). The fields are laid
  out in that order, 8 bytes for a pointer, \<open>uint64_t\<close> or \<open>size_t\<close>, 4 bytes for an
  \<open>int\<close>. The union \<open>cqe\<close> of an event has the size of its largest member.
\<close>

datatype fi_cq_format =
  FI_CQ_FORMAT_UNSPEC | FI_CQ_FORMAT_CONTEXT | FI_CQ_FORMAT_MSG | FI_CQ_FORMAT_DATA
  | FI_CQ_FORMAT_TAGGED | FI_CQ_FORMAT_INVALID

definition sizeof_fi_cq_entry :: nat where "sizeof_fi_cq_entry = 8"
definition sizeof_fi_cq_msg_entry :: nat where "sizeof_fi_cq_msg_entry = 24"
definition sizeof_fi_cq_data_entry :: nat where "sizeof_fi_cq_data_entry = 40"
definition sizeof_fi_cq_tagged_entry :: nat where "sizeof_fi_cq_tagged_entry = 48"
definition sizeof_cqe :: nat where "sizeof_cqe = 48"

definition context_op_context :: nat where "context_op_context = 0"

definition msg_op_context :: nat where "msg_op_context = 0"
definition msg_flags :: nat where "msg_flags = 8"
definition msg_len :: nat where "msg_len = 16"

definition data_op_context :: nat where "data_op_context = 0"
definition data_buf :: nat where "data_buf = 8"
definition data_flags :: nat where "data_flags = 16"
definition data_len :: nat where "data_len = 24"
definition data_data :: nat where "data_data = 32"

definition tagged_op_context :: nat where "tagged_op_context = 0"
definition tagged_buf :: nat where "tagged_buf = 8"
definition tagged_flags :: nat where "tagged_flags = 16"
definition tagged_len :: nat where "tagged_len = 24"
definition tagged_data :: nat where "tagged_data = 32"
definition tagged_tag :: nat where "tagged_tag = 40"

definition err_op_context :: nat where "err_op_context = 0"
definition err_err :: nat where "err_err = 8"
definition err_prov_errno :: nat where "err_prov_errno = 12"
definition err_data :: nat where "err_data = 16"
definition err_tag :: nat where "err_tag = 24"
definition err_olen :: nat where "err_olen = 32"

text \<open>
  The codes of the errno headers and of the PSM library the provider returns or
  compares with (the headers are not part of the sources).
\<close>

definition ENOMEM :: int where "ENOMEM = 12"
definition ENOSYS :: int where "ENOSYS = 38"
definition ENODATA :: int where "ENODATA = 61"
definition FI_EINVAL :: int where "FI_EINVAL = 22"
definition FI_ENOMEM :: int where "FI_ENOMEM = 12"
definition FI_ETOOSMALL :: int where "FI_ETOOSMALL = 257"
definition FI_EAVAIL :: int where "FI_EAVAIL = 259"
definition PSM_OK :: int where "PSM_OK = 0"
definition PSM_MQ_NO_COMPLETIONS :: int where "PSM_MQ_NO_COMPLETIONS = 60"

section \<open>Completion queues\<close>

datatype fi_wait_obj =
  FI_WAIT_NONE | FI_WAIT_UNSPECIFIED | FI_WAIT_SET | FI_WAIT_FD | FI_WAIT_MUT_COND
  | FI_WAIT_INVALID

datatype fi_cq_wait_cond = FI_CQ_COND_NONE | FI_CQ_COND_THRESHOLD | FI_CQ_COND_INVALID

text \<open>
  \<open>struct psmx_wait\<close> (field \<open>type\<close> is \<open>wait_type\<close> here): the three members of its union
  are separate fields. \<open>mutex_cond\<close> is the memory of the mutex and condition pair.
\<close>

record psmx_wait =
  wait_type :: fi_wait_obj
  cond :: fi_cq_wait_cond
  wait_set :: u64
  fd :: "int \<times> int"
  mutex_cond :: mem

text \<open>
  \<open>struct psmx_fid_cq\<close>. \<open>events\<close> is the memory holding the events of this queue:
  those of its FIFO, of its free list and its pending error.
\<close>

record psmx_fid_cq =
  domain :: u64
  format :: fi_cq_format
  entry_size :: nat
  events :: evmem
  event_queue :: psmx_cq_event_queue
  free_list :: psmx_cq_event_queue
  pending_error :: "nat option"
  wait :: "psmx_wait option"
  poll_am_before_mq :: bool

text \<open>
  Modelled from the spec: the macros \<open>PSMX_FREE_LIST_GET\<close> and \<open>PSMX_FREE_LIST_PUT\<close>,
  defined in a header that is not part of the sources. The spec: "get(): pop pool head
  in O(1); if empty, allocate fresh. put(): push to pool head, O(1)".
\<close>

definition psmx_free_list_get :: "psmx_fid_cq \<Rightarrow> (nat \<times> psmx_fid_cq) option" where
  "psmx_free_list_get cq =
     (case psmx_cq_dequeue_event (events cq) (free_list cq) of
        None \<Rightarrow> None
      | Some (Some item, m, fl) \<Rightarrow> Some (item, cq\<lparr>events := m, free_list := fl\<rparr>)
      | Some (None, m, fl) \<Rightarrow>
          (let (item, m') = ev_calloc (events cq) in Some (item, cq\<lparr>events := m'\<rparr>)))"

definition psmx_free_list_put :: "psmx_fid_cq \<Rightarrow> nat \<Rightarrow> psmx_fid_cq option" where
  "psmx_free_list_put cq item =
     (case ev_at (events cq) item of
        None \<Rightarrow> None
      | Some e \<Rightarrow>
          Some (cq\<lparr>events := ev_set (events cq) item (e\<lparr>nxt := head (free_list cq)\<rparr>),
                   free_list := \<lparr>head = Some item,
                                 tail = (if tail (free_list cq) = None then Some item
                                         else tail (free_list cq))\<rparr>\<rparr>))"

definition psmx_cq_create_event ::
  "psmx_fid_cq \<Rightarrow> u64 \<Rightarrow> u64 \<Rightarrow> u64 \<Rightarrow> u64 \<Rightarrow> u64 \<Rightarrow> u64 \<Rightarrow> u64 \<Rightarrow> int
     \<Rightarrow> (nat option \<times> psmx_fid_cq) option" where
  "psmx_cq_create_event cq op_context buf flags len data tag olen err = do {
     (event, cq1) \<leftarrow> psmx_free_list_get cq;
     e \<leftarrow> ev_at (events cq1) event;
     let store = (\<lambda>e'. cq1\<lparr>events := ev_set (events cq1) event e'\<rparr>) in
     if err \<noteq> 0 then
       Some (Some event, store (e\<lparr>error := 1,
         cqe := put_i32 err_prov_errno 0 (put_u64 err_olen olen (put_u64 err_tag tag
                 (put_u64 err_data data (put_i32 err_err (- err)
                 (put_u64 err_op_context op_context (cqe e))))))\<rparr>))
     else
       (case format cq of
          FI_CQ_FORMAT_CONTEXT \<Rightarrow>
            Some (Some event, store (e\<lparr>error := 0,
              cqe := put_u64 context_op_context op_context (cqe e)\<rparr>))
        | FI_CQ_FORMAT_MSG \<Rightarrow>
            Some (Some event, store (e\<lparr>error := 0,
              cqe := put_u64 msg_len len (put_u64 msg_flags flags
                      (put_u64 msg_op_context op_context (cqe e)))\<rparr>))
        | FI_CQ_FORMAT_DATA \<Rightarrow>
            Some (Some event, store (e\<lparr>error := 0,
              cqe := put_u64 data_data data (put_u64 data_len len (put_u64 data_flags flags
                      (put_u64 data_buf buf (put_u64 data_op_context op_context (cqe e)))))\<rparr>))
        | FI_CQ_FORMAT_TAGGED \<Rightarrow>
            Some (Some event, store (e\<lparr>error := 0,
              cqe := put_u64 tagged_tag tag (put_u64 tagged_data data (put_u64 tagged_len len
                      (put_u64 tagged_flags flags (put_u64 tagged_buf buf
                      (put_u64 tagged_op_context op_context (cqe e))))))\<rparr>))
        | _ \<Rightarrow> Some (None, store (e\<lparr>error := 0\<rparr>)))
   }"

section \<open>Endpoints, contexts and the matched queue\<close>

datatype psmx_context_type =
  PSMX_NOCOMP_SEND_CONTEXT | PSMX_NOCOMP_RECV_CONTEXT | PSMX_NOCOMP_WRITE_CONTEXT
  | PSMX_NOCOMP_READ_CONTEXT | PSMX_INJECT_CONTEXT | PSMX_INJECT_WRITE_CONTEXT
  | PSMX_SEND_CONTEXT | PSMX_RECV_CONTEXT | PSMX_MULTI_RECV_CONTEXT | PSMX_READ_CONTEXT
  | PSMX_WRITE_CONTEXT | PSMX_REMOTE_WRITE_CONTEXT | PSMX_REMOTE_READ_CONTEXT

text \<open>
  \<open>struct fi_context\<close> as the macros \<open>PSMX_CTXT_REQ\<close>, \<open>PSMX_CTXT_TYPE\<close>, \<open>PSMX_CTXT_USER\<close>
  and \<open>PSMX_CTXT_EP\<close> read it.
\<close>

record fi_context =
  ctxt_req :: u64
  ctxt_type :: psmx_context_type
  ctxt_user :: u64
  ctxt_ep :: u64

record psmx_fid_ep =
  pending_sends :: int
  pending_writes :: int
  pending_reads :: int
  send_cntr_event_flag :: int
  recv_cntr_event_flag :: int
  write_cntr_event_flag :: int
  read_cntr_event_flag :: int
  send_cq :: u64
  recv_cq :: u64
  send_cntr :: u64
  recv_cntr :: u64
  write_cntr :: u64
  read_cntr :: u64

text \<open>\<open>struct psmx_fid_mr\<close>: fields \<open>cq\<close> and \<open>cntr\<close>.\<close>

record psmx_fid_mr =
  mr_cq :: u64
  mr_cntr :: u64

text \<open>
  \<open>struct psmx_multi_recv\<close>: fields \<open>tag\<close>, \<open>tagsel\<close>, \<open>flag\<close>, \<open>buf\<close>, \<open>offset\<close>,
  \<open>min_buf_size\<close>, \<open>len\<close> and \<open>context\<close>, here with the prefix \<open>req_\<close>.
\<close>

record psmx_multi_recv =
  req_tag :: u64
  req_tagsel :: u64
  req_flag :: u64
  req_buf :: u64
  req_offset :: u64
  req_min_buf_size :: u64
  req_len :: u64
  req_context :: u64

text \<open>\<open>psm_mq_status_t\<close> (field \<open>context\<close> is \<open>status_context\<close> here).\<close>

record psm_mq_status_t =
  msg_tag :: u64
  msg_length :: u64
  nbytes :: u64
  error_code :: int
  status_context :: u64

text \<open>The arguments of one call of \<open>psm_mq_irecv\<close>.\<close>

record irecv_post =
  post_tag :: u64
  post_tagsel :: u64
  post_flags :: u64
  post_buf :: u64
  post_len :: u64
  post_context :: u64

text \<open>
  The state of the provider: the objects by address, and the matched queue (MQ) of the
  PSM library. \<open>mq_ready\<close> is what the successive calls of \<open>psm_mq_ipeek\<close> return: the
  return code and, when it is \<open>PSM_OK\<close>, the status \<open>psm_mq_test\<close> gives for the request;
  once the list is used up, the MQ has nothing ready. \<open>mq_posted\<close> records the receives
  posted with \<open>psm_mq_irecv\<close>, \<open>mq_irecv_rc\<close> and \<open>mq_irecv_req\<close> are the return code and
  the request handle of the next such call. \<open>am_write_data\<close> gives, for the address of the
  \<open>fi_context\<close> embedded in a \<open>struct psmx_am_request\<close>, the field \<open>write.data\<close> of that
  request.
\<close>

record psmx_state =
  cqs :: "u64 \<rightharpoonup> psmx_fid_cq"
  eps :: "u64 \<rightharpoonup> psmx_fid_ep"
  cntrs :: "u64 \<rightharpoonup> u64"
  mrs :: "u64 \<rightharpoonup> psmx_fid_mr"
  ctxts :: "u64 \<rightharpoonup> fi_context"
  mreqs :: "u64 \<rightharpoonup> psmx_multi_recv"
  am_write_data :: "u64 \<rightharpoonup> u64"
  reserved_tag_bits :: u64
  mq_ready :: "(int \<times> psm_mq_status_t) list"
  mq_posted :: "irecv_post list"
  mq_irecv_rc :: int
  mq_irecv_req :: u64

definition deref :: "(u64 \<rightharpoonup> 'a) \<Rightarrow> u64 \<Rightarrow> 'a option" where
  "deref m p = (if p = 0 then None else m p)"

text \<open>
  What the provider uses and the sources do not define: the translation \<open>psmx_errno\<close> of a
  PSM error code, the active-message progress \<open>psmx_am_progress\<close>, the address translation
  \<open>psmx_epid_to_epaddr\<close> (its return code and the address it stores), whether \<open>calloc\<close>
  fails, what \<open>pipe\<close> gives (\<open>None\<close> when it fails, with \<open>errno\<close> set), and the constants \<open>PSMX_MSG_BIT\<close>, \<open>FI_ADDR_UNSPEC\<close>, \<open>FI_MULTI_RECV\<close> and the size
  of the mutex and condition pair of a wait object.
\<close>

record env =
  psmx_errno :: "int \<Rightarrow> int"
  psmx_am_progress :: "psmx_state \<Rightarrow> psmx_state"
  psmx_epid_to_epaddr :: "u64 \<Rightarrow> int \<times> u64"
  calloc_fails :: bool
  sys_pipe :: "(int \<times> int) option"
  errno :: int
  PSMX_MSG_BIT :: u64
  FI_ADDR_UNSPEC :: u64
  FI_MULTI_RECV :: u64
  sizeof_mutex_cond :: nat

text \<open>
  Modelled from the spec: the \<open>add\<close> operation of a counter, defined in a file that is not
  part of the sources. The spec: "Counter (external): exposes an atomic
  increment-by-one". The counter incremented is the one the first argument points to.
\<close>

definition psmx_cntr_add :: "u64 \<Rightarrow> u64 \<Rightarrow> psmx_state \<Rightarrow> psmx_state option" where
  "psmx_cntr_add cntr v st = do {
     c \<leftarrow> deref (cntrs st) cntr;
     Some (st\<lparr>cntrs := (cntrs st)(cntr \<mapsto> c + v)\<rparr>)
   }"

definition psm_mq_irecv :: "psmx_state \<Rightarrow> irecv_post \<Rightarrow> int \<times> u64 \<times> psmx_state" where
  "psm_mq_irecv st p =
     (if mq_irecv_rc st = PSM_OK
      then (PSM_OK, mq_irecv_req st, st\<lparr>mq_posted := mq_posted st @ [p]\<rparr>)
      else (mq_irecv_rc st, 0, st))"



section \<open>The progress driver\<close>

definition psmx_cq_create_event_from_status ::
  "env \<Rightarrow> psmx_state \<Rightarrow> u64 \<Rightarrow> psm_mq_status_t \<Rightarrow> u64 \<Rightarrow> (nat option \<times> psmx_state) option" where
  "psmx_cq_create_event_from_status ev st cqp psm_status data = do {
     cq \<leftarrow> deref (cqs st) cqp;
     (event, cq1) \<leftarrow> psmx_free_list_get cq;
     e \<leftarrow> ev_at (events cq1) event;
     fi_context \<leftarrow> deref (ctxts st) (status_context psm_status);
     (op_context, buf, is_recv) \<leftarrow>
       (case ctxt_type fi_context of
          PSMX_SEND_CONTEXT \<Rightarrow> Some (status_context psm_status, ctxt_user fi_context, False)
        | PSMX_RECV_CONTEXT \<Rightarrow> Some (status_context psm_status, ctxt_user fi_context, True)
        | PSMX_MULTI_RECV_CONTEXT \<Rightarrow> do {
            req \<leftarrow> deref (mreqs st) (ctxt_user fi_context);
            Some (status_context psm_status, req_buf req + req_offset req, True)
          }
        | _ \<Rightarrow> Some (ctxt_user fi_context, 0, False));
     let out = (\<lambda>e'. st\<lparr>cqs := (cqs st)(cqp \<mapsto> cq1\<lparr>events := ev_set (events cq1) event
                  (if is_recv then e'\<lparr>source := msg_tag psm_status\<rparr> else e')\<rparr>)\<rparr>);
         keep = (\<lambda>m. if data \<noteq> 0 then m else (\<lambda>x. x)) in
     if error_code psm_status \<noteq> 0 then
       Some (Some event, out (e\<lparr>error := 1,
         cqe := keep (put_u64 err_data data)
                 (put_u64 err_olen (msg_length psm_status - nbytes psm_status)
                 (put_u64 err_tag (msg_tag psm_status)
                 (put_i32 err_prov_errno (error_code psm_status)
                 (put_i32 err_err (- psmx_errno ev (error_code psm_status))
                 (put_u64 err_op_context op_context (cqe e))))))\<rparr>))
     else
       (case format cq of
          FI_CQ_FORMAT_CONTEXT \<Rightarrow>
            Some (Some event, out (e\<lparr>error := 0,
              cqe := put_u64 context_op_context op_context (cqe e)\<rparr>))
        | FI_CQ_FORMAT_MSG \<Rightarrow>
            Some (Some event, out (e\<lparr>error := 0,
              cqe := put_u64 msg_len (nbytes psm_status)
                      (put_u64 msg_op_context op_context (cqe e))\<rparr>))
        | FI_CQ_FORMAT_DATA \<Rightarrow>
            Some (Some event, out (e\<lparr>error := 0,
              cqe := keep (put_u64 data_data data)
                      (put_u64 data_len (nbytes psm_status) (put_u64 data_buf buf
                      (put_u64 data_op_context op_context (cqe e))))\<rparr>))
        | FI_CQ_FORMAT_TAGGED \<Rightarrow>
            Some (Some event, out (e\<lparr>error := 0,
              cqe := keep (put_u64 tagged_data data)
                      (put_u64 tagged_tag (msg_tag psm_status)
                      (put_u64 tagged_len (nbytes psm_status) (put_u64 tagged_buf buf
                      (put_u64 tagged_op_context op_context (cqe e)))))\<rparr>))
        | _ \<Rightarrow>
            Some (None, st\<lparr>cqs := (cqs st)(cqp \<mapsto> cq1\<lparr>events :=
                    ev_set (events cq1) event (e\<lparr>error := 0\<rparr>)\<rparr>)\<rparr>))
   }"

text \<open>
  One completion either ends the call of the driver with a return code or lets its
  loop go on.
\<close>

datatype poll_outcome = Return int | Continue

text \<open>\<open>psmx_cq_enqueue_event (&cq->event_queue, event)\<close> for the queue at an address.\<close>

definition cq_enqueue :: "psmx_state \<Rightarrow> u64 \<Rightarrow> nat \<Rightarrow> psmx_state option" where
  "cq_enqueue st cqp event = do {
     cq \<leftarrow> deref (cqs st) cqp;
     (m, ceq) \<leftarrow> psmx_cq_enqueue_event (events cq) (event_queue cq) event;
     Some (st\<lparr>cqs := (cqs st)(cqp \<mapsto> cq\<lparr>events := m, event_queue := ceq\<rparr>)\<rparr>)
   }"

text \<open>
  The step the driver takes at three places: when the target queue is not \<open>NULL\<close>, build
  the event from the status, return \<open>-ENOMEM\<close> if there is none, enqueue it.
\<close>

definition poll_deliver ::
  "env \<Rightarrow> u64 \<Rightarrow> psm_mq_status_t \<Rightarrow> (psmx_state \<Rightarrow> u64 option) \<Rightarrow> psmx_state
     \<Rightarrow> (poll_outcome \<times> psmx_state) option" where
  "poll_deliver ev target psm_status data st =
     (if target \<noteq> 0 then do {
        d \<leftarrow> data st;
        (event, st1) \<leftarrow> psmx_cq_create_event_from_status ev st target psm_status d;
        (case event of
           None \<Rightarrow> Some (Return (- ENOMEM), st1)
         | Some e \<Rightarrow> do { st2 \<leftarrow> cq_enqueue st1 target e; Some (Continue, st2) })
      } else Some (Continue, st))"

text \<open>
  The cases \<open>PSMX_REMOTE_WRITE_CONTEXT\<close> and \<open>PSMX_REMOTE_READ_CONTEXT\<close>. The counter
  operation is the one of \<open>mr->cntr\<close>, its argument is \<open>&tmp_cntr->cntr\<close>.
\<close>

definition poll_remote ::
  "env \<Rightarrow> u64 \<Rightarrow> psm_mq_status_t \<Rightarrow> fi_context \<Rightarrow> (psmx_state \<Rightarrow> u64 option) \<Rightarrow> u64
     \<Rightarrow> psmx_state \<Rightarrow> (poll_outcome \<times> psmx_state) option" where
  "poll_remote ev cq psm_status fi_context data tmp_cntr st = do {
     mr \<leftarrow> deref (mrs st) (ctxt_user fi_context);
     (r, st1) \<leftarrow> poll_deliver ev (mr_cq mr) psm_status data st;
     (case r of
        Return rc \<Rightarrow> Some (Return rc, st1)
      | Continue \<Rightarrow> do {
          st2 \<leftarrow> (if mr_cntr mr \<noteq> 0
                  then do { _ \<leftarrow> deref (cntrs st1) (mr_cntr mr); psmx_cntr_add tmp_cntr 1 st1 }
                  else Some st1);
          Some (if cq = 0 \<or> mr_cq mr = cq then Return 1 else Continue, st2)
        })
   }"

text \<open>
  The first switch for the other context types: the endpoint with its pending count
  decremented, \<open>tmp_cq\<close>, \<open>tmp_cntr\<close> and \<open>multi_recv\<close>.
\<close>

definition poll_switch ::
  "psmx_context_type \<Rightarrow> psmx_fid_ep \<Rightarrow> psmx_fid_ep \<times> u64 \<times> u64 \<times> bool" where
  "poll_switch ty tmp_ep =
     (case ty of
        PSMX_NOCOMP_SEND_CONTEXT \<Rightarrow>
          (tmp_ep\<lparr>pending_sends := pending_sends tmp_ep - 1\<rparr>, 0,
           if send_cntr_event_flag tmp_ep = 0 then send_cntr tmp_ep else 0, False)
      | PSMX_NOCOMP_RECV_CONTEXT \<Rightarrow>
          (tmp_ep, 0, if recv_cntr_event_flag tmp_ep = 0 then recv_cntr tmp_ep else 0, False)
      | PSMX_NOCOMP_WRITE_CONTEXT \<Rightarrow>
          (tmp_ep\<lparr>pending_writes := pending_writes tmp_ep - 1\<rparr>, 0,
           if write_cntr_event_flag tmp_ep = 0 then write_cntr tmp_ep else 0, False)
      | PSMX_NOCOMP_READ_CONTEXT \<Rightarrow>
          (tmp_ep\<lparr>pending_reads := pending_reads tmp_ep - 1\<rparr>, 0,
           if read_cntr_event_flag tmp_ep = 0 then read_cntr tmp_ep else 0, False)
      | PSMX_INJECT_CONTEXT \<Rightarrow>
          (tmp_ep\<lparr>pending_sends := pending_sends tmp_ep - 1\<rparr>, 0,
           if send_cntr_event_flag tmp_ep = 0 then send_cntr tmp_ep else 0, False)
      | PSMX_INJECT_WRITE_CONTEXT \<Rightarrow>
          (tmp_ep\<lparr>pending_writes := pending_writes tmp_ep - 1\<rparr>, 0,
           if write_cntr_event_flag tmp_ep = 0 then write_cntr tmp_ep else 0, False)
      | PSMX_SEND_CONTEXT \<Rightarrow>
          (tmp_ep\<lparr>pending_sends := pending_sends tmp_ep - 1\<rparr>,
           send_cq tmp_ep, send_cntr tmp_ep, False)
      | PSMX_RECV_CONTEXT \<Rightarrow> (tmp_ep, recv_cq tmp_ep, recv_cntr tmp_ep, False)
      | PSMX_MULTI_RECV_CONTEXT \<Rightarrow> (tmp_ep, recv_cq tmp_ep, recv_cntr tmp_ep, True)
      | PSMX_READ_CONTEXT \<Rightarrow>
          (tmp_ep\<lparr>pending_reads := pending_reads tmp_ep - 1\<rparr>,
           send_cq tmp_ep, read_cntr tmp_ep, False)
      | PSMX_WRITE_CONTEXT \<Rightarrow>
          (tmp_ep\<lparr>pending_writes := pending_writes tmp_ep - 1\<rparr>,
           send_cq tmp_ep, write_cntr tmp_ep, False)
      | _ \<Rightarrow> (tmp_ep, 0, 0, False))"

text \<open>The block \<open>if (multi_recv) { ... }\<close>.\<close>

definition poll_multi_recv ::
  "env \<Rightarrow> u64 \<Rightarrow> psm_mq_status_t \<Rightarrow> fi_context \<Rightarrow> psmx_state
     \<Rightarrow> (poll_outcome \<times> psmx_state) option" where
  "poll_multi_recv ev tmp_cq psm_status fi_context st = do {
     req0 \<leftarrow> deref (mreqs st) (ctxt_user fi_context);
     let req = req0\<lparr>req_offset := req_offset req0 + nbytes psm_status\<rparr>;
         st1 = st\<lparr>mreqs := (mreqs st)(ctxt_user fi_context \<mapsto> req)\<rparr> in
     if req_offset req + req_min_buf_size req \<le> req_len req then
       (let (err, psm_req, st2) = psm_mq_irecv st1
              \<lparr>post_tag = req_tag req, post_tagsel = req_tagsel req, post_flags = req_flag req,
               post_buf = req_buf req + req_offset req,
               post_len = req_len req - req_offset req,
               post_context = status_context psm_status\<rparr> in
        if err \<noteq> PSM_OK then Some (Return (psmx_errno ev err), st2)
        else Some (Continue, st2\<lparr>ctxts := (ctxts st2)(status_context psm_status \<mapsto>
                     fi_context\<lparr>ctxt_req := psm_req\<rparr>)\<rparr>))
     else do {
       (r, st2) \<leftarrow>
         (if tmp_cq \<noteq> 0 then do {
            cq \<leftarrow> deref (cqs st1) tmp_cq;
            (event, cq1) \<leftarrow> psmx_cq_create_event cq (req_context req) (req_buf req)
                              (FI_MULTI_RECV ev) (req_len req) (req_len req - req_offset req)
                              0 0 0;
            let st' = st1\<lparr>cqs := (cqs st1)(tmp_cq \<mapsto> cq1)\<rparr> in
            (case event of
               None \<Rightarrow> Some (Return (- ENOMEM), st')
             | Some e \<Rightarrow> do { st'' \<leftarrow> cq_enqueue st' tmp_cq e; Some (Continue, st'') })
          } else Some (Continue, st1));
       (case r of
          Return rc \<Rightarrow> Some (Return rc, st2)
        | Continue \<Rightarrow> Some (Continue, st2\<lparr>mreqs := (mreqs st2)(ctxt_user fi_context := None)\<rparr>))
     }
   }"

text \<open>
  The body of the loop for a context that is not of a remote type: the first switch, the
  event, the counter, the multi-recv block and the final test.
\<close>

definition poll_local ::
  "env \<Rightarrow> u64 \<Rightarrow> psm_mq_status_t \<Rightarrow> fi_context \<Rightarrow> psmx_state
     \<Rightarrow> (poll_outcome \<times> psmx_state) option" where
  "poll_local ev cq psm_status fi_context st = do {
     tmp_ep \<leftarrow> deref (eps st) (ctxt_ep fi_context);
     let (ep', tmp_cq, tmp_cntr, multi_recv) = poll_switch (ctxt_type fi_context) tmp_ep;
         st1 = st\<lparr>eps := (eps st)(ctxt_ep fi_context \<mapsto> ep')\<rparr>;
         st2 = (if ctxt_type fi_context = PSMX_INJECT_CONTEXT
                   \<or> ctxt_type fi_context = PSMX_INJECT_WRITE_CONTEXT
                then st1\<lparr>ctxts := (ctxts st1)(status_context psm_status := None)\<rparr>
                else st1) in do {
     (r, st3) \<leftarrow> poll_deliver ev tmp_cq psm_status (\<lambda>s. Some 0) st2;
     (case r of
        Return rc \<Rightarrow> Some (Return rc, st3)
      | Continue \<Rightarrow> do {
          st4 \<leftarrow> (if tmp_cntr \<noteq> 0 then psmx_cntr_add tmp_cntr 1 st3 else Some st3);
          (r', st5) \<leftarrow> (if multi_recv
                         then poll_multi_recv ev tmp_cq psm_status fi_context st4
                         else Some (Continue, st4));
          (case r' of
             Return rc \<Rightarrow> Some (Return rc, st5)
           | Continue \<Rightarrow>
               Some (if cq = 0 \<or> tmp_cq = cq then Return 1 else Continue, st5))
        })
     }
   }"

text \<open>
  The body of the loop for one request that \<open>psm_mq_ipeek\<close> returned. \<open>tmp_cntr\<close> is
  \<open>NULL\<close> when the switch is entered.
\<close>

definition poll_completion ::
  "env \<Rightarrow> u64 \<Rightarrow> psm_mq_status_t \<Rightarrow> psmx_state \<Rightarrow> (poll_outcome \<times> psmx_state) option" where
  "poll_completion ev cq psm_status st = do {
     fi_context \<leftarrow> deref (ctxts st) (status_context psm_status);
     let tmp_cntr = (0 :: u64) in
     (case ctxt_type fi_context of
        PSMX_REMOTE_WRITE_CONTEXT \<Rightarrow>
          poll_remote ev cq psm_status fi_context
            (\<lambda>s. deref (am_write_data s) (status_context psm_status)) tmp_cntr st
      | PSMX_REMOTE_READ_CONTEXT \<Rightarrow>
          poll_remote ev cq psm_status fi_context (\<lambda>s. Some 0) tmp_cntr st
      | _ \<Rightarrow> poll_local ev cq psm_status fi_context st)
   }"

text \<open>
  The loop \<open>while (1)\<close>, by recursion on what \<open>psm_mq_ipeek\<close> returns from call to call.
\<close>

fun poll_loop ::
  "env \<Rightarrow> u64 \<Rightarrow> (int \<times> psm_mq_status_t) list \<Rightarrow> psmx_state \<Rightarrow> (int \<times> psmx_state) option" where
  "poll_loop ev cq [] st = Some (0, st)"
| "poll_loop ev cq ((err, psm_status) # rest) st =
     (let st0 = st\<lparr>mq_ready := rest\<rparr> in
      if err = PSM_OK then
        (case poll_completion ev cq psm_status st0 of
           None \<Rightarrow> None
         | Some (Return rc, st') \<Rightarrow> Some (rc, st')
         | Some (Continue, st') \<Rightarrow> poll_loop ev cq rest st')
      else if err = PSM_MQ_NO_COMPLETIONS then Some (0, st0)
      else Some (psmx_errno ev err, st0))"

definition psmx_cq_poll_mq :: "env \<Rightarrow> u64 \<Rightarrow> psmx_state \<Rightarrow> (int \<times> psmx_state) option" where
  "psmx_cq_poll_mq ev cq st = poll_loop ev cq (mq_ready st) st"



section \<open>Reading, writing and reading errors\<close>

definition psmx_cq_get_event_src_addr ::
  "env \<Rightarrow> psmx_state \<Rightarrow> psmx_cq_event \<Rightarrow> u64 option \<Rightarrow> int \<times> u64 option" where
  "psmx_cq_get_event_src_addr ev st event src_addr =
     (case src_addr of
        None \<Rightarrow> (0, None)
      | Some a \<Rightarrow>
          if reserved_tag_bits st AND PSMX_MSG_BIT ev \<noteq> 0 \<and> source event AND PSMX_MSG_BIT ev \<noteq> 0
          then (let (err, epaddr) = psmx_epid_to_epaddr ev (source event AND NOT (PSMX_MSG_BIT ev))
                in if err \<noteq> 0 then (err, Some a) else (0, Some epaddr))
          else (- ENODATA, Some a))"

text \<open>
  \<open>buf\<close> is the memory the caller's pointer points to (\<open>None\<close> for \<open>NULL\<close>), \<open>src_addr\<close> the
  address variable the caller's pointer points to (\<open>None\<close> for \<open>NULL\<close>); both are
  returned as the call leaves them. A failed \<open>assert\<close> and a copy of more bytes than
  the union \<open>cqe\<close> has are \<open>None\<close>.
\<close>

text \<open>
  The first lines of \<open>psmx_cq_readfrom\<close>: the flag \<open>poll_am_before_mq\<close> is flipped and the
  two progress sources run, in the order the flag gives.
\<close>

definition read_progress :: "env \<Rightarrow> u64 \<Rightarrow> psmx_state \<Rightarrow> psmx_state option" where
  "read_progress ev cq st = do {
     cq_priv0 \<leftarrow> deref (cqs st) cq;
     _ \<leftarrow> (if domain cq_priv0 = 0 then None else Some ());
     let flag = (\<not> poll_am_before_mq cq_priv0);
         st1 = st\<lparr>cqs := (cqs st)(cq \<mapsto> cq_priv0\<lparr>poll_am_before_mq := flag\<rparr>)\<rparr>;
         st2 = (if flag then psmx_am_progress ev st1 else st1) in do {
     (_, st3) \<leftarrow> psmx_cq_poll_mq ev cq st2;
     cq_priv3 \<leftarrow> deref (cqs st3) cq;
     Some (if \<not> poll_am_before_mq cq_priv3 then psmx_am_progress ev st3 else st3)
     }
   }"

definition psmx_cq_readfrom ::
  "env \<Rightarrow> u64 \<Rightarrow> mem option \<Rightarrow> nat \<Rightarrow> u64 option \<Rightarrow> psmx_state
     \<Rightarrow> (int \<times> mem option \<times> u64 option \<times> psmx_state) option" where
  "psmx_cq_readfrom ev cq buf len src_addr st = do {
     st4 \<leftarrow> read_progress ev cq st;
     cq_priv \<leftarrow> deref (cqs st4) cq;
     if pending_error cq_priv \<noteq> None then Some (- FI_EAVAIL, buf, src_addr, st4)
     else if len < entry_size cq_priv then Some (- FI_ETOOSMALL, buf, src_addr, st4)
     else
       (case buf of
          None \<Rightarrow> Some (- FI_EINVAL, buf, src_addr, st4)
        | Some b \<Rightarrow> do {
            (event, m, ceq) \<leftarrow> psmx_cq_dequeue_event (events cq_priv) (event_queue cq_priv);
            let cq1 = cq_priv\<lparr>events := m, event_queue := ceq\<rparr> in
            (case event of
               None \<Rightarrow> Some (0, buf, src_addr, st4)
             | Some e \<Rightarrow> do {
                 x \<leftarrow> ev_at m e;
                 if error x = 0 then do {
                   _ \<leftarrow> (if sizeof_cqe < entry_size cq_priv then None else Some ());
                   let (rc, sa) = psmx_cq_get_event_src_addr ev st4 x src_addr in do {
                   cq2 \<leftarrow> psmx_free_list_put cq1 e;
                   Some (int (entry_size cq_priv),
                         Some (memcpy b (cqe x) (entry_size cq_priv)),
                         if rc \<noteq> 0 then Some (FI_ADDR_UNSPEC ev) else sa,
                         st4\<lparr>cqs := (cqs st4)(cq \<mapsto> cq2)\<rparr>)
                 }} else
                   Some (- FI_EAVAIL, buf, src_addr,
                         st4\<lparr>cqs := (cqs st4)(cq \<mapsto> cq1\<lparr>pending_error := Some e\<rparr>)\<rparr>)
               })
          })
   }"

definition psmx_cq_read ::
  "env \<Rightarrow> u64 \<Rightarrow> mem option \<Rightarrow> nat \<Rightarrow> psmx_state
     \<Rightarrow> (int \<times> mem option \<times> u64 option \<times> psmx_state) option" where
  "psmx_cq_read ev cq buf len st = psmx_cq_readfrom ev cq buf len None st"


text \<open>\<open>buf\<close> is the memory the caller's pointer points to.\<close>

definition psmx_cq_write ::
  "env \<Rightarrow> u64 \<Rightarrow> mem \<Rightarrow> nat \<Rightarrow> psmx_state \<Rightarrow> (int \<times> psmx_state) option" where
  "psmx_cq_write ev cq buf len st = do {
     cq_priv \<leftarrow> deref (cqs st) cq;
     if len < entry_size cq_priv then Some (- FI_ETOOSMALL, st)
     else if calloc_fails ev then Some (- ENOMEM, st)
     else do {
       _ \<leftarrow> (if sizeof_cqe < entry_size cq_priv then None else Some ());
       let (event, m) = ev_calloc (events cq_priv);
           m1 = ev_set m event
                  (zero_event\<lparr>cqe := memcpy (cqe zero_event) buf (entry_size cq_priv)\<rparr>) in do {
       (m2, ceq) \<leftarrow> psmx_cq_enqueue_event m1 (event_queue cq_priv) event;
       Some (int (entry_size cq_priv),
             st\<lparr>cqs := (cqs st)(cq \<mapsto> cq_priv\<lparr>events := m2, event_queue := ceq\<rparr>)\<rparr>)
     }}
   }"

section \<open>Control and open\<close>

datatype fi_command = FI_GETWAIT | FI_COMMAND_OTHER

text \<open>
  \<open>arg\<close> is the memory the caller's pointer points to, returned as the call leaves it.
\<close>

definition psmx_cq_control ::
  "env \<Rightarrow> u64 \<Rightarrow> fi_command \<Rightarrow> mem \<Rightarrow> psmx_state \<Rightarrow> (int \<times> mem) option" where
  "psmx_cq_control ev fid command arg st = do {
     cq \<leftarrow> deref (cqs st) fid;
     (case command of
        FI_GETWAIT \<Rightarrow>
          if wait cq = None then do {
            w \<leftarrow> wait cq;
            Some (0, case wait_type w of
                       FI_WAIT_SET \<Rightarrow> put_u64 0 (wait_set w) arg
                     | FI_WAIT_FD \<Rightarrow> put_i32 0 (fst (fd w)) arg
                     | FI_WAIT_MUT_COND \<Rightarrow> memcpy arg (mutex_cond w) (sizeof_mutex_cond ev)
                     | _ \<Rightarrow> arg)
          } else Some (0, arg)
      | _ \<Rightarrow> Some (- ENOSYS, arg))
   }"

record fi_cq_attr =
  attr_format :: fi_cq_format
  attr_wait_obj :: fi_wait_obj
  attr_wait_cond :: fi_cq_wait_cond
  attr_wait_set :: u64

definition psmx_cq_init_wait :: "env \<Rightarrow> psmx_wait \<Rightarrow> fi_cq_attr \<Rightarrow> int \<times> psmx_wait" where
  "psmx_cq_init_wait ev w attr =
     (let w1 = w\<lparr>wait_type := attr_wait_obj attr, cond := attr_wait_cond attr\<rparr> in
      case attr_wait_obj attr of
        FI_WAIT_SET \<Rightarrow> (0, w1\<lparr>wait_set := attr_wait_set attr\<rparr>)
      | FI_WAIT_FD \<Rightarrow>
          (case sys_pipe ev of None \<Rightarrow> (- errno ev, w1) | Some fds \<Rightarrow> (0, w1\<lparr>fd := fds\<rparr>))
      | FI_WAIT_MUT_COND \<Rightarrow> (0, w1\<lparr>mutex_cond := zero_mem\<rparr>)
      | _ \<Rightarrow> (0, w1))"

text \<open>
  Modelled from the spec: the macro \<open>PSMX_FREE_LIST_INIT\<close>, defined in a header that is
  not part of the sources. The spec: "allocates the CQ and its pool (initial capacity
  64)". The pool is a chain of zeroed events.
\<close>

definition psmx_free_list_init :: "nat \<Rightarrow> evmem \<times> psmx_cq_event_queue" where
  "psmx_free_list_init n =
     (map (\<lambda>i. Some (zero_event\<lparr>nxt := (if Suc i < n then Some (Suc i) else None)\<rparr>)) [0..<n],
      \<lparr>head = (if 0 < n then Some 0 else None), tail = (if 0 < n then Some (n - 1) else None)\<rparr>)"

text \<open>
  \<open>psmx_cq_open\<close> returns its code, the attributes as it leaves them and the queue it
  allocated.
\<close>

definition psmx_cq_open ::
  "env \<Rightarrow> u64 \<Rightarrow> fi_cq_attr \<Rightarrow> int \<times> fi_cq_attr \<times> psmx_fid_cq option" where
  "psmx_cq_open ev domain_priv attr =
     (case (case attr_format attr of
              FI_CQ_FORMAT_UNSPEC \<Rightarrow>
                Some (attr\<lparr>attr_format := FI_CQ_FORMAT_TAGGED\<rparr>, sizeof_fi_cq_tagged_entry)
            | FI_CQ_FORMAT_CONTEXT \<Rightarrow> Some (attr, sizeof_fi_cq_entry)
            | FI_CQ_FORMAT_MSG \<Rightarrow> Some (attr, sizeof_fi_cq_msg_entry)
            | FI_CQ_FORMAT_DATA \<Rightarrow> Some (attr, sizeof_fi_cq_data_entry)
            | FI_CQ_FORMAT_TAGGED \<Rightarrow> Some (attr, sizeof_fi_cq_tagged_entry)
            | FI_CQ_FORMAT_INVALID \<Rightarrow> None) of
        None \<Rightarrow> (- FI_EINVAL, attr, None)
      | Some (attr1, entry_sz) \<Rightarrow>
          (let make_wait =
                 (if attr_wait_cond attr1 = FI_CQ_COND_INVALID then Inl (- FI_EINVAL)
                  else if calloc_fails ev then Inl (- FI_ENOMEM)
                  else (case psmx_cq_init_wait ev
                               \<lparr>wait_type = FI_WAIT_NONE, cond = FI_CQ_COND_NONE, wait_set = 0,
                                fd = (0, 0), mutex_cond = zero_mem\<rparr> attr1 of
                          (err, w) \<Rightarrow> if err \<noteq> 0 then Inl err else Inr (Some w)));
               wait_or_err =
                 (case attr_wait_obj attr1 of
                    FI_WAIT_NONE \<Rightarrow> Inr None
                  | FI_WAIT_SET \<Rightarrow>
                      if attr_wait_set attr1 = 0 then Inl (- FI_EINVAL) else make_wait
                  | FI_WAIT_UNSPECIFIED \<Rightarrow> make_wait
                  | FI_WAIT_FD \<Rightarrow> make_wait
                  | FI_WAIT_MUT_COND \<Rightarrow> make_wait
                  | FI_WAIT_INVALID \<Rightarrow> Inl (- FI_EINVAL))
           in case wait_or_err of
                Inl err \<Rightarrow> (err, attr1, None)
              | Inr w \<Rightarrow>
                  if calloc_fails ev then (- FI_ENOMEM, attr1, None)
                  else (let (m, fl) = psmx_free_list_init 64 in
                        (0, attr1,
                         Some \<lparr>domain = domain_priv, format = attr_format attr1,
                               entry_size = entry_sz, events = m,
                               event_queue = \<lparr>head = None, tail = None\<rparr>, free_list = fl,
                               pending_error = None, wait = w, poll_am_before_mq = False\<rparr>))))"



section \<open>What a queue holds\<close>


text \<open>
  The events a completion queue holds: those of its FIFO, in order, and those of its
  free list, no event being in both.
\<close>

definition cq_holds :: "psmx_fid_cq \<Rightarrow> nat list \<Rightarrow> nat list \<Rightarrow> bool" where
  "cq_holds c xs ys \<longleftrightarrow>
     ceq_holds (events c) (event_queue c) xs \<and> ceq_holds (events c) (free_list c) ys \<and>
     set xs \<inter> set ys = {}"

text \<open>
  The length, immediate data and flags fields of an entry of a format, for the formats
  that have them.
\<close>

definition entry_len :: "fi_cq_format \<Rightarrow> mem \<Rightarrow> u64 option" where
  "entry_len f m =
     (case f of
        FI_CQ_FORMAT_MSG \<Rightarrow> Some (get_u64 msg_len m)
      | FI_CQ_FORMAT_DATA \<Rightarrow> Some (get_u64 data_len m)
      | FI_CQ_FORMAT_TAGGED \<Rightarrow> Some (get_u64 tagged_len m)
      | _ \<Rightarrow> None)"

definition entry_data :: "fi_cq_format \<Rightarrow> mem \<Rightarrow> u64 option" where
  "entry_data f m =
     (case f of
        FI_CQ_FORMAT_DATA \<Rightarrow> Some (get_u64 data_data m)
      | FI_CQ_FORMAT_TAGGED \<Rightarrow> Some (get_u64 tagged_data m)
      | _ \<Rightarrow> None)"

definition entry_flags :: "fi_cq_format \<Rightarrow> mem \<Rightarrow> u64 option" where
  "entry_flags f m =
     (case f of
        FI_CQ_FORMAT_MSG \<Rightarrow> Some (get_u64 msg_flags m)
      | FI_CQ_FORMAT_DATA \<Rightarrow> Some (get_u64 data_flags m)
      | FI_CQ_FORMAT_TAGGED \<Rightarrow> Some (get_u64 tagged_flags m)
      | _ \<Rightarrow> None)"

section \<open>Example states\<close>

text \<open>
  An environment whose active-message progress has nothing to do, an empty completion
  queue, and a state holding one queue at address 16 with nothing ready in the MQ.
\<close>

definition env0 :: env where
  "env0 = \<lparr>psmx_errno = (\<lambda>e. if e = 0 then 0 else - 256), psmx_am_progress = (\<lambda>s. s),
           psmx_epid_to_epaddr = (\<lambda>e. (0, e)), calloc_fails = False, sys_pipe = Some (3, 4),
           errno = 0, PSMX_MSG_BIT = push_bit 63 1, FI_ADDR_UNSPEC = - 1,
           FI_MULTI_RECV = push_bit 16 1, sizeof_mutex_cond = 88\<rparr>"

definition cq0 :: "fi_cq_format \<Rightarrow> nat \<Rightarrow> psmx_fid_cq" where
  "cq0 f n = \<lparr>domain = 1, format = f, entry_size = n, events = [],
              event_queue = \<lparr>head = None, tail = None\<rparr>, free_list = \<lparr>head = None, tail = None\<rparr>,
              pending_error = None, wait = None, poll_am_before_mq = False\<rparr>"

definition st0 :: "psmx_fid_cq \<Rightarrow> psmx_state" where
  "st0 c = \<lparr>cqs = [16 \<mapsto> c], eps = Map.empty, cntrs = Map.empty, mrs = Map.empty,
            ctxts = Map.empty, mreqs = Map.empty, am_write_data = Map.empty,
            reserved_tag_bits = 0, mq_ready = [], mq_posted = [], mq_irecv_rc = 0,
            mq_irecv_req = 0\<rparr>"

text \<open>
  A queue whose pending error is an event already taken out of the FIFO.
\<close>

definition cq_pending :: psmx_fid_cq where
  "cq_pending = (cq0 FI_CQ_FORMAT_MSG 24)\<lparr>events := [Some (zero_event\<lparr>error := 1\<rparr>)],
                                           pending_error := Some 0\<rparr>"



text \<open>
  A queue opened with a wait object of type \<open>FI_WAIT_FD\<close>. An endpoint bound to the queue
  at address 16 for sends and receives, with no counters, and a status whose context is
  at address 48. A state whose MQ has one remote-write completion ready, for a memory
  region with a queue and a counter; one with a send completion that asked for no
  completion event; one with an ordinary send completion.
\<close>

definition attr_fd :: fi_cq_attr where
  "attr_fd = \<lparr>attr_format = FI_CQ_FORMAT_MSG, attr_wait_obj = FI_WAIT_FD,
              attr_wait_cond = FI_CQ_COND_NONE, attr_wait_set = 0\<rparr>"

definition wait_fd :: psmx_wait where
  "wait_fd = \<lparr>wait_type = FI_WAIT_FD, cond = FI_CQ_COND_NONE, wait_set = 0, fd = (3, 4),
              mutex_cond = zero_mem\<rparr>"

definition cq_wait_fd :: psmx_fid_cq where
  "cq_wait_fd = \<lparr>domain = 1, format = FI_CQ_FORMAT_MSG, entry_size = sizeof_fi_cq_msg_entry,
                 events = fst (psmx_free_list_init 64),
                 event_queue = \<lparr>head = None, tail = None\<rparr>,
                 free_list = snd (psmx_free_list_init 64),
                 pending_error = None, wait = Some wait_fd, poll_am_before_mq = False\<rparr>"

definition ep0 :: psmx_fid_ep where
  "ep0 = \<lparr>pending_sends = 0, pending_writes = 0, pending_reads = 0,
           send_cntr_event_flag = 0, recv_cntr_event_flag = 0, write_cntr_event_flag = 0,
           read_cntr_event_flag = 0, send_cq = 16, recv_cq = 16,
           send_cntr = 0, recv_cntr = 0, write_cntr = 0, read_cntr = 0\<rparr>"

definition status0 :: "u64 \<Rightarrow> psm_mq_status_t" where
  "status0 n = \<lparr>msg_tag = 7, msg_length = n, nbytes = n, error_code = 0, status_context = 48\<rparr>"

definition st_remote_write :: psmx_state where
  "st_remote_write = (st0 (cq0 FI_CQ_FORMAT_TAGGED 48))\<lparr>
     mrs := [96 \<mapsto> \<lparr>mr_cq = 16, mr_cntr = 112\<rparr>], cntrs := [112 \<mapsto> 5],
     ctxts := [48 \<mapsto> \<lparr>ctxt_req = 0, ctxt_type = PSMX_REMOTE_WRITE_CONTEXT, ctxt_user = 96,
                       ctxt_ep = 0\<rparr>],
     am_write_data := [48 \<mapsto> 1234],
     mq_ready := [(PSM_OK, status0 8)]\<rparr>"



text \<open>
  A state whose MQ has one completion ready for a multi-recv buffer of length 100 with
  minimum chunk size 10 and nothing consumed yet, posted on the endpoint at address 32.
\<close>

definition req0 :: psmx_multi_recv where
  "req0 = \<lparr>req_tag = 7, req_tagsel = 255, req_flag = 0, req_buf = 4096, req_offset = 0,
            req_min_buf_size = 10, req_len = 100, req_context = 80\<rparr>"

definition ctx_mrecv :: fi_context where
  "ctx_mrecv = \<lparr>ctxt_req = 0, ctxt_type = PSMX_MULTI_RECV_CONTEXT, ctxt_user = 64, ctxt_ep = 32\<rparr>"

definition st_mrecv :: "u64 \<Rightarrow> psmx_state" where
  "st_mrecv n = (st0 (cq0 FI_CQ_FORMAT_TAGGED 48))\<lparr>eps := [32 \<mapsto> ep0],
       ctxts := [48 \<mapsto> ctx_mrecv], mreqs := [64 \<mapsto> req0],
       mq_ready := [(PSM_OK, status0 n)], mq_irecv_req := 99\<rparr>"

section \<open>Fields of an entry\<close>

lemma low_byte_or_rest: "ucast (ucast (x::u64) :: byte) OR push_bit 8 (take_bit (8*n) (drop_bit 8 x)) = take_bit (8 * Suc n) x"
proof (rule bit_word_eqI)
  fix k assume k: "k < LENGTH(64)"
  show "bit (ucast (ucast x :: byte) OR push_bit 8 (take_bit (8*n) (drop_bit 8 x))) k = bit (take_bit (8 * Suc n) x) k"
  proof (cases "k < 8")
    case True
    then show ?thesis by (simp add: bit_simps)
  next
    case False
    then have "8 + (k - 8) = k" by simp
    with False k show ?thesis by (auto simp add: bit_simps)
  qed
qed

lemma le_decode_bytes:
  "le_decode n k (\<lambda>i. ucast (drop_bit (8 * i) w)) = take_bit (8 * n) (drop_bit (8 * k) (w :: u64))"
proof (induction n arbitrary: k)
  case 0
  show ?case by simp
next
  case (Suc n)
  have "drop_bit 8 (drop_bit (8 * k) w) = drop_bit (8 * Suc k) w"
    by (simp add: drop_bit_drop_bit add.commute)
  with low_byte_or_rest [of "drop_bit (8 * k) w" n] show ?case
    by (simp add: Suc)
qed

lemma le_decode_put_same:
  "k + n \<le> 8 \<Longrightarrow>
   le_decode n (off + k) (put_u64 off v m) = le_decode n k (\<lambda>i. ucast (drop_bit (8 * i) v))"
proof (induction n arbitrary: k)
  case 0
  show ?case by simp
next
  case (Suc n)
  from Suc.prems have "Suc k + n \<le> 8" by simp
  from Suc.IH [OF this] have "le_decode n (Suc (off + k)) (put_u64 off v m) =
      le_decode n (Suc k) (\<lambda>i. ucast (drop_bit (8 * i) v))" by simp
  moreover from Suc.prems have "put_u64 off v m (off + k) = ucast (drop_bit (8 * k) v)"
    by (simp add: put_u64_def)
  ultimately show ?case by simp
qed

lemma get_put_u64: "get_u64 off (put_u64 off v m) = v"
  using le_decode_put_same [of 0 8 off v m] by (simp add: get_u64_def le_decode_bytes take_bit_word_eq_self)

lemma le_decode_put_other:
  "off' + 8 \<le> off \<or> off + 8 \<le> off' \<Longrightarrow> k + n \<le> 8 \<Longrightarrow>
   le_decode n (off' + k) (put_u64 off v m) = le_decode n (off' + k) m"
proof (induction n arbitrary: k)
  case 0
  show ?case by simp
next
  case (Suc n)
  from Suc.prems have "Suc k + n \<le> 8" by simp
  from Suc.IH [OF Suc.prems(1) this] have "le_decode n (Suc (off' + k)) (put_u64 off v m) =
      le_decode n (Suc (off' + k)) m" by simp
  moreover from Suc.prems have "put_u64 off v m (off' + k) = m (off' + k)"
    by (auto simp add: put_u64_def)
  ultimately show ?case by simp
qed

lemma get_put_u64_other:
  "off' + 8 \<le> off \<or> off + 8 \<le> off' \<Longrightarrow> get_u64 off' (put_u64 off v m) = get_u64 off' m"
  using le_decode_put_other [of off' off 0 8 v m] by (simp add: get_u64_def)

section \<open>The queue is first in, first out\<close>

lemma ev_at_set: "ev_at (ev_set m a e) x = (if x = a \<and> a < length m then Some e else ev_at m x)"
  by (simp add: ev_at_def ev_set_def)

lemma length_ev_set: "length (ev_set m a e) = length m"
  by (simp add: ev_set_def)

lemma enqueue_one_cell:
  "psmx_cq_enqueue_event m ceq e = Some (m', ceq') \<Longrightarrow>
   length m' = length m \<and> (\<forall>a. tail ceq \<noteq> Some a \<longrightarrow> ev_at m' a = ev_at m a)"
  by (auto simp add: psmx_cq_enqueue_event_def ev_at_set length_ev_set split: option.splits)

lemma dequeue_one_cell:
  "psmx_cq_dequeue_event m ceq = Some (r, m', ceq') \<Longrightarrow>
   length m' = length m \<and> (\<forall>a. head ceq \<noteq> Some a \<longrightarrow> ev_at m' a = ev_at m a) \<and>
   (r \<noteq> None \<and> head ceq' = None \<longrightarrow> tail ceq' = None)"
  by (auto simp add: psmx_cq_dequeue_event_def ev_at_set length_ev_set Let_def
      split: option.splits if_splits)

lemma ev_at_len: "ev_at m a = Some e \<Longrightarrow> a < length m"
  by (simp add: ev_at_def split: if_splits)

lemma chain_set_notin: "a \<notin> set xs \<Longrightarrow> chain (ev_set m a e) p xs = chain m p xs"
  by (induction xs arbitrary: p) (auto simp add: ev_at_set split: option.splits)

lemma chain_last:
  "chain m p xs \<Longrightarrow> xs \<noteq> [] \<Longrightarrow> \<exists>e. ev_at m (last xs) = Some e \<and> nxt e = None"
proof (induction xs arbitrary: p)
  case Nil
  then show ?case by simp
next
  case (Cons x xs)
  then show ?case by (cases xs) (auto split: option.splits)
qed

lemma chain_snoc:
  "chain m p xs \<Longrightarrow> distinct xs \<Longrightarrow> xs \<noteq> [] \<Longrightarrow> ev_at m (last xs) = Some te \<Longrightarrow>
   ev_at m e = Some ee \<Longrightarrow> nxt ee = None \<Longrightarrow> e \<notin> set xs \<Longrightarrow>
   chain (ev_set m (last xs) (te\<lparr>nxt := Some e\<rparr>)) p (xs @ [e])"
proof (induction xs arbitrary: p)
  case Nil
  then show ?case by simp
next
  case (Cons x xs)
  show ?case
  proof (cases xs)
    case Nil
    with Cons.prems show ?thesis
      by (auto simp add: ev_at_set dest: ev_at_len split: option.splits)
  next
    case (Cons y ys)
    with Cons.prems have x: "x \<noteq> last xs" by auto
    from Cons.prems obtain ex where ex: "ev_at m x = Some ex" "chain m (nxt ex) xs" "p = Some x"
      by (auto split: option.splits)
    from Cons.prems Cons have "chain (ev_set m (last xs) (te\<lparr>nxt := Some e\<rparr>)) (nxt ex) (xs @ [e])"
      using ex by (intro Cons.IH) auto
    moreover from Cons have "xs \<noteq> []" by simp
    ultimately show ?thesis using ex x by (simp add: ev_at_set)
  qed
qed

lemma enqueue_holds:
  assumes "ceq_holds m ceq xs" "ev_at m e = Some ee" "nxt ee = None" "e \<notin> set xs"
  shows "\<exists>m' ceq'. psmx_cq_enqueue_event m ceq e = Some (m', ceq') \<and> ceq_holds m' ceq' (xs @ [e])
     \<and> length m' = length m \<and> (\<forall>a. a \<notin> set xs \<longrightarrow> ev_at m' a = ev_at m a)
     \<and> (\<forall>a e0. ev_at m a = Some e0 \<longrightarrow> (\<exists>e1. ev_at m' a = Some e1 \<and> e1\<lparr>nxt := None\<rparr> = e0\<lparr>nxt := None\<rparr>))"
proof (cases "xs = []")
  case True
  with assms show ?thesis
    by (auto simp add: ceq_holds_def psmx_cq_enqueue_event_def)
next
  case False
  with assms have t: "tail ceq = Some (last xs)" by (simp add: ceq_holds_def)
  from assms False obtain te where te: "ev_at m (last xs) = Some te" "nxt te = None"
    using chain_last [of m "head ceq" xs] by (auto simp add: ceq_holds_def)
  from assms False te have "chain (ev_set m (last xs) (te\<lparr>nxt := Some e\<rparr>)) (head ceq) (xs @ [e])"
    by (intro chain_snoc) (auto simp add: ceq_holds_def)
  with assms t te False show ?thesis
    by (auto simp add: ceq_holds_def psmx_cq_enqueue_event_def ev_at_set dest: ev_at_len)
       (auto simp add: ev_set_def)
qed

lemma dequeue_holds:
  assumes "ceq_holds m ceq (x # xs)"
  shows "\<exists>m' ceq' e. psmx_cq_dequeue_event m ceq = Some (Some x, m', ceq') \<and> ceq_holds m' ceq' xs
     \<and> ev_at m x = Some e \<and> m' = ev_set m x (e\<lparr>nxt := None\<rparr>)"
proof -
  from assms obtain e where e: "head ceq = Some x" "ev_at m x = Some e" "chain m (nxt e) xs"
    by (auto simp add: ceq_holds_def split: option.splits)
  from assms have d: "x \<notin> set xs" "distinct xs" by (auto simp add: ceq_holds_def)
  from e d have c: "chain (ev_set m x (e\<lparr>nxt := None\<rparr>)) (nxt e) xs"
    by (simp add: chain_set_notin)
  show ?thesis
  proof (cases xs)
    case Nil
    with e c d assms show ?thesis
      by (auto simp add: psmx_cq_dequeue_event_def ceq_holds_def Let_def)
  next
    case (Cons y ys)
    with e c d assms show ?thesis
      by (auto simp add: psmx_cq_dequeue_event_def ceq_holds_def Let_def split: option.splits)
  qed
qed

lemma dequeue_empty:
  "ceq_holds m ceq [] \<Longrightarrow> psmx_cq_dequeue_event m ceq = Some (None, m, ceq)"
  by (simp add: ceq_holds_def psmx_cq_dequeue_event_def)

lemma enqueue_events_holds:
  "ceq_holds m ceq xs \<Longrightarrow> distinct es \<Longrightarrow> set es \<inter> set xs = {} \<Longrightarrow>
   (\<forall>e \<in> set es. \<exists>ee. ev_at m e = Some ee \<and> nxt ee = None) \<Longrightarrow>
   \<exists>m' ceq'. enqueue_events m ceq es = Some (m', ceq') \<and> ceq_holds m' ceq' (xs @ es)"
proof (induction es arbitrary: m ceq xs)
  case Nil
  then show ?case by simp
next
  case (Cons e es)
  from Cons.prems obtain ee where ee: "ev_at m e = Some ee" "nxt ee = None" by auto
  from Cons.prems have "e \<notin> set xs" by auto
  from enqueue_holds [OF Cons.prems(1) ee this]
  obtain m1 ceq1 where 1: "psmx_cq_enqueue_event m ceq e = Some (m1, ceq1)"
      "ceq_holds m1 ceq1 (xs @ [e])" "\<forall>a. a \<notin> set xs \<longrightarrow> ev_at m1 a = ev_at m a"
    by blast
  from Cons.prems have "set es \<inter> set (xs @ [e]) = {}" "distinct es" by auto
  moreover from Cons.prems 1(3) have "\<forall>x \<in> set es. \<exists>ee. ev_at m1 x = Some ee \<and> nxt ee = None"
    by auto
  ultimately obtain m' ceq' where "enqueue_events m1 ceq1 es = Some (m', ceq')"
      "ceq_holds m' ceq' ((xs @ [e]) @ es)"
    using Cons.IH [OF 1(2)] by blast
  with 1(1) show ?case by simp
qed

lemma dequeue_events_holds:
  "ceq_holds m ceq xs \<Longrightarrow>
   \<exists>m' ceq'. dequeue_events m ceq (length xs) = Some (map Some xs, m', ceq') \<and>
     ceq_holds m' ceq' []"
proof (induction xs arbitrary: m ceq)
  case Nil
  then show ?case by simp
next
  case (Cons x xs)
  from dequeue_holds [OF Cons.prems] obtain m1 ceq1 where
    1: "psmx_cq_dequeue_event m ceq = Some (Some x, m1, ceq1)" "ceq_holds m1 ceq1 xs"
    by blast
  from Cons.IH [OF 1(2)] 1(1) show ?case by auto
qed

text \<open>
  C8. For a queue that holds the events \<open>xs\<close>, enqueuing the events \<open>es\<close> (distinct, not
  in the queue, each with a \<open>NULL\<close> link, as the free list and \<open>calloc\<close> hand them out)
  and then dequeuing as many times as the queue has events returns the events of \<open>xs\<close>
  and then those of \<open>es\<close>, in the order they were enqueued; the dequeue that empties the
  queue leaves both \<open>head\<close> and \<open>tail\<close> \<open>NULL\<close>. With \<open>xs\<close> empty these are \<open>N\<close> enqueues
  followed by \<open>N\<close> dequeues. \<open>psmx_cq_enqueue_event\<close> and \<open>psmx_cq_dequeue_event\<close> are not
  recursive: each reads and writes a fixed number of pointers. An enqueue writes no
  event but the old tail, a dequeue none but the old head, and a dequeue that returns an
  event and leaves no head leaves no tail.
\<close>

theorem fifo_order:
  assumes "ceq_holds m ceq xs" and "distinct es" and "set es \<inter> set xs = {}"
    and "\<forall>e \<in> set es. \<exists>ee. ev_at m e = Some ee \<and> nxt ee = None"
  shows "(\<exists>m1 ceq1 m2 ceq2.
           enqueue_events m ceq es = Some (m1, ceq1) \<and>
           dequeue_events m1 ceq1 (length xs + length es) = Some (map Some (xs @ es), m2, ceq2) \<and>
           head ceq2 = None \<and> tail ceq2 = None) \<and>
         (\<forall>e m' ceq'. psmx_cq_enqueue_event m ceq e = Some (m', ceq') \<longrightarrow>
            length m' = length m \<and> (\<forall>a. tail ceq \<noteq> Some a \<longrightarrow> ev_at m' a = ev_at m a)) \<and>
         (\<forall>r m' ceq'. psmx_cq_dequeue_event m ceq = Some (r, m', ceq') \<longrightarrow>
            length m' = length m \<and> (\<forall>a. head ceq \<noteq> Some a \<longrightarrow> ev_at m' a = ev_at m a) \<and>
            (r \<noteq> None \<and> head ceq' = None \<longrightarrow> tail ceq' = None))"
proof -
  from enqueue_events_holds [OF assms] obtain m1 ceq1 where
    1: "enqueue_events m ceq es = Some (m1, ceq1)" "ceq_holds m1 ceq1 (xs @ es)" by blast
  from dequeue_events_holds [OF 1(2)] obtain m2 ceq2 where
    "dequeue_events m1 ceq1 (length xs + length es) = Some (map Some (xs @ es), m2, ceq2)"
    "ceq_holds m2 ceq2 []" by auto
  with 1(1) have fifo: "\<exists>m1 ceq1 m2 ceq2.
           enqueue_events m ceq es = Some (m1, ceq1) \<and>
           dequeue_events m1 ceq1 (length xs + length es) = Some (map Some (xs @ es), m2, ceq2) \<and>
           head ceq2 = None \<and> tail ceq2 = None"
    by (auto simp add: ceq_holds_def)
  have enq: "\<forall>e m' ceq'. psmx_cq_enqueue_event m ceq e = Some (m', ceq') \<longrightarrow>
            length m' = length m \<and> (\<forall>a. tail ceq \<noteq> Some a \<longrightarrow> ev_at m' a = ev_at m a)"
    using enqueue_one_cell [of m ceq] by blast
  have deq: "\<forall>r m' ceq'. psmx_cq_dequeue_event m ceq = Some (r, m', ceq') \<longrightarrow>
            length m' = length m \<and> (\<forall>a. head ceq \<noteq> Some a \<longrightarrow> ev_at m' a = ev_at m a) \<and>
            (r \<noteq> None \<and> head ceq' = None \<longrightarrow> tail ceq' = None)"
    using dequeue_one_cell [of m ceq] by blast
  from fifo enq deq show ?thesis by blast
qed

theorem fifo_order_witness:
  "ceq_holds [Some zero_event, Some zero_event] \<lparr>head = None, tail = None\<rparr> [] \<and>
   (\<exists>m1 ceq1 m2 ceq2.
      enqueue_events [Some zero_event, Some zero_event] \<lparr>head = None, tail = None\<rparr> [0, 1]
        = Some (m1, ceq1) \<and>
      dequeue_events m1 ceq1 2 = Some ([Some 0, Some 1], m2, ceq2) \<and>
      head ceq2 = None \<and> tail ceq2 = None)"
proof -
  let ?m = "[Some zero_event, Some zero_event]"
  let ?q = "\<lparr>head = None, tail = None\<rparr>"
  have h1: "ceq_holds ?m ?q []" by (simp add: ceq_holds_def)
  have h2: "distinct [0, 1 :: nat]" by simp
  have h3: "set [0, 1 :: nat] \<inter> set [] = {}" by simp
  have h4: "\<forall>e \<in> set [0, 1 :: nat]. \<exists>ee. ev_at ?m e = Some ee \<and> nxt ee = None"
    by (simp add: ev_at_def zero_event_def)
  have e: "length ([] :: nat list) + length [0, 1 :: nat] = 2" by simp
  have f: "map Some ([] @ [0, 1 :: nat]) = [Some 0, Some 1]" by simp
  from fifo_order [OF h1 h2 h3 h4, THEN conjunct1] h1 show ?thesis unfolding e f by blast
qed

section \<open>Reading and writing\<close>

lemma poll_mq_nothing_ready: "mq_ready st = [] \<Longrightarrow> psmx_cq_poll_mq ev cq st = Some (0, st)"
  by (simp add: psmx_cq_poll_mq_def)

lemma read_progress_idle:
  assumes c: "deref (cqs st) cq = Some c" and d: "domain c \<noteq> 0" and q: "mq_ready st = []"
    and am: "\<forall>s. cqs (psmx_am_progress ev s) cq = cqs s cq \<and>
                 mq_ready (psmx_am_progress ev s) = mq_ready s"
  shows "\<exists>st4. read_progress ev cq st = Some st4 \<and>
           deref (cqs st4) cq = Some (c\<lparr>poll_am_before_mq := \<not> poll_am_before_mq c\<rparr>) \<and>
           mq_ready st4 = []"
proof -
  let ?st1 = "st\<lparr>cqs := (cqs st)(cq \<mapsto> c\<lparr>poll_am_before_mq := \<not> poll_am_before_mq c\<rparr>)\<rparr>"
  let ?st2 = "if \<not> poll_am_before_mq c then psmx_am_progress ev ?st1 else ?st1"
  from c have nz: "cq \<noteq> 0" by (auto simp add: deref_def split: if_splits)
  have q2: "mq_ready ?st2 = []" using q am by simp
  have c2: "deref (cqs ?st2) cq = Some (c\<lparr>poll_am_before_mq := \<not> poll_am_before_mq c\<rparr>)"
    using am nz by (simp add: deref_def)
  have p: "psmx_cq_poll_mq ev cq ?st2 = Some (0, ?st2)"
    by (rule poll_mq_nothing_ready [OF q2])
  let ?st4 = "if poll_am_before_mq c then psmx_am_progress ev ?st2 else ?st2"
  have "read_progress ev cq st = Some ?st4"
    unfolding read_progress_def using c d p c2 by (simp add: Let_def)
  moreover have "deref (cqs ?st4) cq = Some (c\<lparr>poll_am_before_mq := \<not> poll_am_before_mq c\<rparr>)"
    using am nz c2 by (simp add: deref_def)
  moreover have "mq_ready ?st4 = []" using q am by simp
  ultimately show ?thesis by blast
qed

lemma readfrom_pending:
  "read_progress ev cq st = Some st4 \<Longrightarrow> deref (cqs st4) cq = Some c \<Longrightarrow>
   pending_error c \<noteq> None \<Longrightarrow>
   psmx_cq_readfrom ev cq buf len sa st = Some (- FI_EAVAIL, buf, sa, st4)"
  by (simp add: psmx_cq_readfrom_def)

lemma readfrom_too_small:
  "read_progress ev cq st = Some st4 \<Longrightarrow> deref (cqs st4) cq = Some c \<Longrightarrow>
   pending_error c = None \<Longrightarrow> len < entry_size c \<Longrightarrow>
   psmx_cq_readfrom ev cq buf len sa st = Some (- FI_ETOOSMALL, buf, sa, st4)"
  by (simp add: psmx_cq_readfrom_def)

lemma dequeue_head:
  "head ceq = Some x \<Longrightarrow> ev_at m x = Some e \<Longrightarrow>
   \<exists>ceq'. psmx_cq_dequeue_event m ceq = Some (Some x, ev_set m x (e\<lparr>nxt := None\<rparr>), ceq') \<and>
     head ceq' = nxt e \<and> (nxt e = None \<longrightarrow> tail ceq' = None) \<and>
     (nxt e \<noteq> None \<longrightarrow> tail ceq' = tail ceq)"
  by (auto simp add: psmx_cq_dequeue_event_def Let_def)

lemma readfrom_data:
  assumes "read_progress ev cq st = Some st4" and "deref (cqs st4) cq = Some c"
    and "pending_error c = None" and "entry_size c \<le> len" and "entry_size c \<le> sizeof_cqe"
    and "head (event_queue c) = Some x" and "ev_at (events c) x = Some e" and "error e = 0"
  shows "\<exists>sa' st' c'. psmx_cq_readfrom ev cq (Some b) len sa st =
            Some (int (entry_size c), Some (memcpy b (cqe e) (entry_size c)), sa', st') \<and>
          deref (cqs st') cq = Some c' \<and> pending_error c' = None \<and>
          head (event_queue c') = nxt e \<and> (sa = None \<longrightarrow> sa' = None)"
proof -
  from assms(2) have nz: "cq \<noteq> 0" by (auto simp add: deref_def split: if_splits)
  from dequeue_head [OF assms(6,7)] obtain ceq' where
    dq: "psmx_cq_dequeue_event (events c) (event_queue c)
           = Some (Some x, ev_set (events c) x (e\<lparr>nxt := None\<rparr>), ceq')"
    and h: "head ceq' = nxt e" by blast
  from assms(7) have len: "x < length (events c)" by (rule ev_at_len)
  then have at: "ev_at (ev_set (events c) x (e\<lparr>nxt := None\<rparr>)) x = Some (e\<lparr>nxt := None\<rparr>)"
    by (simp add: ev_at_set)
  obtain rc sa' where sa: "psmx_cq_get_event_src_addr ev st4 (e\<lparr>nxt := None\<rparr>) sa = (rc, sa')"
    by (cases "psmx_cq_get_event_src_addr ev st4 (e\<lparr>nxt := None\<rparr>) sa")
  have sn: "sa = None \<longrightarrow> rc = 0 \<and> sa' = None"
    using sa by (auto simp add: psmx_cq_get_event_src_addr_def)
  show ?thesis
    unfolding psmx_cq_readfrom_def
    using assms(1-5,8) dq h at sa sn nz
    by (auto simp add: Let_def psmx_free_list_put_def deref_def)
qed


lemma readfrom_empty:
  "read_progress ev cq st = Some st4 \<Longrightarrow> deref (cqs st4) cq = Some c \<Longrightarrow>
   pending_error c = None \<Longrightarrow> entry_size c \<le> len \<Longrightarrow> head (event_queue c) = None \<Longrightarrow>
   psmx_cq_readfrom ev cq (Some b) len sa st = Some (0, Some b, sa, st4)"
  by (simp add: psmx_cq_readfrom_def psmx_cq_dequeue_event_def)


lemma read_progress_st0:
  "domain c \<noteq> 0 \<Longrightarrow> read_progress env0 16 (st0 c)
     = Some (st0 (c\<lparr>poll_am_before_mq := \<not> poll_am_before_mq c\<rparr>))"
  by (simp add: read_progress_def st0_def deref_def env0_def psmx_cq_poll_mq_def Let_def)

lemma write_empty:
  assumes c: "deref (cqs st) cq = Some c" and e: "tail (event_queue c) = None"
    and l: "entry_size c \<le> len" "entry_size c \<le> sizeof_cqe" and f: "\<not> calloc_fails ev"
  shows "psmx_cq_write ev cq buf len st =
           Some (int (entry_size c),
                 st\<lparr>cqs := (cqs st)(cq \<mapsto> c\<lparr>events := events c @
                         [Some (zero_event\<lparr>cqe := memcpy (cqe zero_event) buf (entry_size c)\<rparr>)],
                       event_queue := (event_queue c)\<lparr>head := Some (length (events c)),
                                                     tail := Some (length (events c))\<rparr>\<rparr>)\<rparr>)"
  using assms
  by (simp add: psmx_cq_write_def ev_calloc_def ev_set_def psmx_cq_enqueue_event_def)

text \<open>
  C6, as the code has it. A read whose capacity is less than the entry size of the queue
  returns \<open>-FI_ETOOSMALL\<close> when the queue has no pending error and \<open>-FI_EAVAIL\<close> when it
  has one (that check comes first). In both cases the buffer and the source address
  are returned as they were, and the state the call leaves is the one its progress
  phase produced: the call itself dequeues nothing and leaves the pending-error slot as
  it is.
\<close>

theorem read_too_small:
  assumes "read_progress ev cq st = Some st4" and "deref (cqs st4) cq = Some c"
    and "len < entry_size c"
  shows "psmx_cq_readfrom ev cq buf len sa st =
           Some (if pending_error c = None then - FI_ETOOSMALL else - FI_EAVAIL, buf, sa, st4)"
  using assms by (simp add: psmx_cq_readfrom_def)

theorem read_too_small_witness:
  "read_progress env0 16 (st0 (cq0 FI_CQ_FORMAT_MSG 24))
     = Some (st0 ((cq0 FI_CQ_FORMAT_MSG 24)\<lparr>poll_am_before_mq := True\<rparr>)) \<and>
   psmx_cq_readfrom env0 16 (Some zero_mem) 23 None (st0 (cq0 FI_CQ_FORMAT_MSG 24))
     = Some (- FI_ETOOSMALL, Some zero_mem, None,
             st0 ((cq0 FI_CQ_FORMAT_MSG 24)\<lparr>poll_am_before_mq := True\<rparr>))"
proof -
  let ?c = "(cq0 FI_CQ_FORMAT_MSG 24)\<lparr>poll_am_before_mq := True\<rparr>"
  have p: "read_progress env0 16 (st0 (cq0 FI_CQ_FORMAT_MSG 24)) = Some (st0 ?c)"
    using read_progress_st0 [of "cq0 FI_CQ_FORMAT_MSG 24"] by (simp add: cq0_def)
  have d: "deref (cqs (st0 ?c)) 16 = Some ?c" by (simp add: st0_def deref_def)
  have l: "23 < entry_size ?c" by (simp add: cq0_def)
  from read_too_small [OF p d l, of "Some zero_mem" None] p show ?thesis
    by (simp add: cq0_def)
qed

text \<open>
  C6 as stated fails: on a queue with a pending error, a read with capacity 0 returns
  \<open>-FI_EAVAIL\<close>, not \<open>-FI_ETOOSMALL\<close>.
\<close>

theorem read_too_small_counterexample:
  "map_option fst (psmx_cq_read env0 16 (Some zero_mem) 0 (st0 cq_pending)) = Some (- FI_EAVAIL) \<and>
   0 < entry_size cq_pending \<and> FI_EAVAIL \<noteq> FI_ETOOSMALL"
proof -
  let ?c = "cq_pending\<lparr>poll_am_before_mq := True\<rparr>"
  have p: "read_progress env0 16 (st0 cq_pending) = Some (st0 ?c)"
    using read_progress_st0 [of cq_pending] by (simp add: cq_pending_def cq0_def)
  have d: "deref (cqs (st0 ?c)) 16 = Some ?c" by (simp add: st0_def deref_def)
  have "pending_error ?c \<noteq> None" by (simp add: cq_pending_def)
  from readfrom_pending [OF p d this] show ?thesis
    by (simp add: psmx_cq_read_def cq_pending_def cq0_def FI_EAVAIL_def FI_ETOOSMALL_def)
qed

text \<open>
  C7. On a queue of one of the four formats, with the entry size of its format, empty
  and with no pending error, while the MQ has nothing ready and the active-message
  progress leaves the queue and the MQ alone: a write of at least the entry size
  followed by a read of at least the entry size both return the entry size, and the
  bytes read are the bytes written.
\<close>

theorem write_read_roundtrip:
  assumes "deref (cqs st) cq = Some c" and "domain c \<noteq> 0"
    and "(format c, entry_size c) \<in>
           {(FI_CQ_FORMAT_CONTEXT, sizeof_fi_cq_entry), (FI_CQ_FORMAT_MSG, sizeof_fi_cq_msg_entry),
            (FI_CQ_FORMAT_DATA, sizeof_fi_cq_data_entry),
            (FI_CQ_FORMAT_TAGGED, sizeof_fi_cq_tagged_entry)}"
    and "head (event_queue c) = None" and "tail (event_queue c) = None"
    and "pending_error c = None"
    and "entry_size c \<le> wlen" and "entry_size c \<le> rlen"
    and "\<not> calloc_fails ev" and "mq_ready st = []"
    and "\<forall>s. cqs (psmx_am_progress ev s) cq = cqs s cq \<and>
             mq_ready (psmx_am_progress ev s) = mq_ready s"
  shows "\<exists>st1 st2 out.
           psmx_cq_write ev cq wbuf wlen st = Some (int (entry_size c), st1) \<and>
           psmx_cq_read ev cq (Some rbuf) rlen st1 = Some (int (entry_size c), Some out, None, st2) \<and>
           map out [0..<entry_size c] = map wbuf [0..<entry_size c]"
proof -
  let ?n = "entry_size c"
  let ?a = "length (events c)"
  let ?e = "zero_event\<lparr>cqe := memcpy (cqe zero_event) wbuf ?n\<rparr>"
  let ?c1 = "c\<lparr>events := events c @ [Some ?e],
               event_queue := (event_queue c)\<lparr>head := Some ?a, tail := Some ?a\<rparr>\<rparr>"
  let ?st1 = "st\<lparr>cqs := (cqs st)(cq \<mapsto> ?c1)\<rparr>"
  from assms(3) have sz: "?n \<le> sizeof_cqe"
    by (auto simp add: sizeof_cqe_def sizeof_fi_cq_entry_def sizeof_fi_cq_msg_entry_def
        sizeof_fi_cq_data_entry_def sizeof_fi_cq_tagged_entry_def)
  from assms(1) have nz: "cq \<noteq> 0" by (auto simp add: deref_def split: if_splits)
  have w: "psmx_cq_write ev cq wbuf wlen st = Some (int ?n, ?st1)"
    by (rule write_empty [OF assms(1) assms(5) assms(7) sz assms(9)])
  have d1: "deref (cqs ?st1) cq = Some ?c1" using nz by (simp add: deref_def)
  have "domain ?c1 \<noteq> 0" "mq_ready ?st1 = []" using assms(2,10) by simp_all
  from read_progress_idle [OF d1 this assms(11)] obtain st4 where
    p: "read_progress ev cq ?st1 = Some st4"
    and d4: "deref (cqs st4) cq = Some (?c1\<lparr>poll_am_before_mq := \<not> poll_am_before_mq ?c1\<rparr>)"
    by blast
  let ?c4 = "?c1\<lparr>poll_am_before_mq := \<not> poll_am_before_mq ?c1\<rparr>"
  have "pending_error ?c4 = None" "entry_size ?c4 \<le> rlen" "entry_size ?c4 \<le> sizeof_cqe"
    "head (event_queue ?c4) = Some ?a" "ev_at (events ?c4) ?a = Some ?e" "error ?e = 0"
    using assms(6,8) sz by (simp_all add: ev_at_def zero_event_def)
  from readfrom_data [OF p d4 this, of rbuf None] obtain st2 where
    "psmx_cq_readfrom ev cq (Some rbuf) rlen None ?st1 =
       Some (int ?n, Some (memcpy rbuf (cqe ?e) ?n), None, st2)"
    by auto
  moreover have "map (memcpy rbuf (cqe ?e) ?n) [0..<?n] = map wbuf [0..<?n]"
    by (simp add: memcpy_def)
  ultimately show ?thesis using w unfolding psmx_cq_read_def by blast
qed

theorem write_read_roundtrip_witness:
  "deref (cqs (st0 (cq0 FI_CQ_FORMAT_MSG 24))) 16 = Some (cq0 FI_CQ_FORMAT_MSG 24) \<and>
   (\<exists>st1 st2 out.
      psmx_cq_write env0 16 (\<lambda>i. of_nat i) 24 (st0 (cq0 FI_CQ_FORMAT_MSG 24)) = Some (24, st1) \<and>
      psmx_cq_read env0 16 (Some zero_mem) 24 st1 = Some (24, Some out, None, st2) \<and>
      map out [0..<24] = map (\<lambda>i. of_nat i) [0..<24])"
proof -
  let ?c = "cq0 FI_CQ_FORMAT_MSG 24"
  have 1: "deref (cqs (st0 ?c)) 16 = Some ?c" by (simp add: st0_def deref_def)
  have 2: "domain ?c \<noteq> 0" by (simp add: cq0_def)
  have 3: "(format ?c, entry_size ?c) \<in>
           {(FI_CQ_FORMAT_CONTEXT, sizeof_fi_cq_entry), (FI_CQ_FORMAT_MSG, sizeof_fi_cq_msg_entry),
            (FI_CQ_FORMAT_DATA, sizeof_fi_cq_data_entry),
            (FI_CQ_FORMAT_TAGGED, sizeof_fi_cq_tagged_entry)}"
    by (simp add: cq0_def sizeof_fi_cq_msg_entry_def)
  have 4: "head (event_queue ?c) = None" "tail (event_queue ?c) = None" "pending_error ?c = None"
    "entry_size ?c \<le> 24" "entry_size ?c \<le> 24"
    by (simp_all add: cq0_def)
  have 5: "\<not> calloc_fails env0" "mq_ready (st0 ?c) = []"
    "\<forall>s. cqs (psmx_am_progress env0 s) 16 = cqs s 16 \<and>
         mq_ready (psmx_am_progress env0 s) = mq_ready s"
    by (simp_all add: env0_def st0_def)
  have n: "entry_size ?c = 24" by (simp add: cq0_def)
  from write_read_roundtrip [OF 1 2 3 4 5, of "\<lambda>i. of_nat i" zero_mem] 1
  show ?thesis unfolding n by simp
qed

section \<open>The pending error\<close>





lemma deref_st0: "deref (cqs (st0 c)) 16 = Some c"
  by (simp add: st0_def deref_def)



section \<open>Control\<close>

lemmas eval_defs = psmx_cq_poll_mq_def st0_def cq0_def env0_def ep0_def status0_def
      poll_completion_def poll_local_def poll_switch_def poll_deliver_def poll_multi_recv_def poll_remote_def
      deref_def PSM_OK_def psmx_cntr_add_def
      psmx_cq_create_event_from_status_def psmx_free_list_get_def psmx_cq_dequeue_event_def
      ev_calloc_def ev_at_def ev_set_def cq_enqueue_def psmx_cq_enqueue_event_def Let_def
      psmx_cq_create_event_def zero_event_def

text \<open>
  What \<open>FI_GETWAIT\<close> does in general: with a wait object the branch that copies it out
  is skipped, and without one that branch reads the fields of a null wait object.
\<close>

lemma control_getwait_with_wait:
  "deref (cqs st) fid = Some c \<Longrightarrow> wait c = Some w \<Longrightarrow>
   psmx_cq_control ev fid FI_GETWAIT arg st = Some (0, arg)"
  by (simp add: psmx_cq_control_def)

lemma control_getwait_without_wait:
  "deref (cqs st) fid = Some c \<Longrightarrow> wait c = None \<Longrightarrow>
   psmx_cq_control ev fid FI_GETWAIT arg st = None"
  by (simp add: psmx_cq_control_def)

lemma control_other_command:
  "deref (cqs st) fid = Some c \<Longrightarrow>
   psmx_cq_control ev fid FI_COMMAND_OTHER arg st = Some (- ENOSYS, arg)"
  by (simp add: psmx_cq_control_def)

text \<open>
  C9, where the code departs from the claim. \<open>psmx_cq_control\<close> tests \<open>!cq->wait\<close>
  before the switch that copies the wait object out, so for a queue opened with a wait
  object (here one of type \<open>FI_WAIT_FD\<close>, whose readable descriptor is 3) the command
  \<open>FI_GETWAIT\<close> returns 0 and leaves the argument as it was: the descriptor is not
  stored. Any other command returns \<open>-ENOSYS\<close>.
\<close>

theorem control_getwait_copies_nothing:
  "psmx_cq_open env0 1 attr_fd = (0, attr_fd, Some cq_wait_fd) \<and>
   wait cq_wait_fd = Some wait_fd \<and> fd wait_fd = (3, 4) \<and>
   psmx_cq_control env0 16 FI_GETWAIT zero_mem (st0 cq_wait_fd) = Some (0, zero_mem) \<and>
   zero_mem 0 = 0 \<and> put_i32 0 (fst (fd wait_fd)) zero_mem 0 = 3 \<and>
   psmx_cq_control env0 16 FI_COMMAND_OTHER zero_mem (st0 cq_wait_fd) = Some (- ENOSYS, zero_mem)"
  by (simp add: psmx_cq_open_def attr_fd_def env0_def psmx_cq_init_wait_def cq_wait_fd_def
      wait_fd_def split_beta psmx_cq_control_def deref_st0 zero_mem_def put_i32_def)

section \<open>Return codes of the progress driver\<close>





lemma poll_deliver_return:
  "poll_deliver ev q s d st = Some (Return rc, st') \<Longrightarrow> rc = - ENOMEM"
  unfolding poll_deliver_def
  by (auto split: if_splits Option.bind_splits option.splits)


















text \<open>
  A remote completion whose memory region has a counter never ends normally with the
  counter incremented: the increment goes through the null \<open>tmp_cntr\<close>, so the step
  either faults or has already returned \<open>-ENOMEM\<close> from the event allocation.
\<close>

lemma cntr_add_null: "psmx_cntr_add 0 v st = None"
  by (simp add: psmx_cntr_add_def deref_def)

lemma poll_remote_counter:
  assumes "deref (mrs st) (ctxt_user ctx) = Some mr" and "mr_cntr mr \<noteq> 0"
  shows "poll_remote ev cq s ctx d 0 st = None \<or>
         (\<exists>st'. poll_remote ev cq s ctx d 0 st = Some (Return (- ENOMEM), st'))"
proof (cases "poll_deliver ev (mr_cq mr) s d st")
  case None
  with assms show ?thesis by (simp add: poll_remote_def)
next
  case (Some r)
  obtain out st1 where r: "r = (out, st1)" by (cases r)
  show ?thesis
  proof (cases out)
    case (Return rc)
    with Some r poll_deliver_return [of ev "mr_cq mr" s d st rc st1] assms
    show ?thesis by (simp add: poll_remote_def)
  next
    case Continue
    with Some r assms show ?thesis
      by (simp add: poll_remote_def cntr_add_null split: Option.bind_splits)
  qed
qed

lemma remote_completion_counter:
  assumes "deref (ctxts st) (status_context s) = Some ctx"
    and "ctxt_type ctx = PSMX_REMOTE_WRITE_CONTEXT \<or> ctxt_type ctx = PSMX_REMOTE_READ_CONTEXT"
    and "deref (mrs st) (ctxt_user ctx) = Some mr" and "mr_cntr mr \<noteq> 0"
  shows "poll_completion ev cq s st = None \<or>
         (\<exists>st'. poll_completion ev cq s st = Some (Return (- ENOMEM), st'))"
proof -
  from assms(2) obtain d where "poll_completion ev cq s st = poll_remote ev cq s ctx d 0 st"
    using assms(1) by (auto simp add: poll_completion_def)
  with poll_remote_counter [OF assms(3,4), of ev cq s d] show ?thesis by simp
qed

text \<open>
  C4, where the code departs from the claim. For a remote-write completion whose memory
  region has a counter, the driver calls the counter's \<open>add\<close> with \<open>&tmp_cntr->cntr\<close>,
  and \<open>tmp_cntr\<close> is \<open>NULL\<close> there: the counter of the memory region is not incremented,
  the call dereferences a null counter. Without a counter the event is enqueued to the
  queue of the memory region and the driver returns 1.
\<close>

theorem remote_write_counter_fault:
  "psmx_cq_poll_mq env0 16 st_remote_write = None \<and>
   psmx_cq_poll_mq env0 0 st_remote_write = None \<and>
   (\<exists>st'. psmx_cq_poll_mq env0 16 (st_remote_write\<lparr>mrs := [96 \<mapsto> \<lparr>mr_cq = 16, mr_cntr = 0\<rparr>]\<rparr>)
            = Some (1, st') \<and> cntrs st' 112 = Some 5)"
  by (simp add: st_remote_write_def eval_defs)




section \<open>Events of a multi-recv buffer\<close>

lemma chain_valid: "chain m p xs \<Longrightarrow> x \<in> set xs \<Longrightarrow> x < length m"
  by (induction xs arbitrary: p) (auto split: option.splits dest: ev_at_len)

lemma chain_cong:
  "(\<And>x. x \<in> set xs \<Longrightarrow> ev_at m' x = ev_at m x) \<Longrightarrow> chain m' p xs = chain m p xs"
  by (induction xs arbitrary: p) (auto split: option.splits)

lemma ceq_holds_cong:
  "(\<And>x. x \<in> set xs \<Longrightarrow> ev_at m' x = ev_at m x) \<Longrightarrow> ceq_holds m' q xs = ceq_holds m q xs"
  using chain_cong [of xs m' m "head q"] by (simp add: ceq_holds_def)

lemma ev_at_append: "a < length m \<Longrightarrow> ev_at (m @ [v]) a = ev_at m a"
  by (simp add: ev_at_def nth_append)

lemma ev_at_calloc: "ev_at (m @ [Some e]) (length m) = Some e"
  by (simp add: ev_at_def)

lemma ceq_holds_valid: "ceq_holds m q xs \<Longrightarrow> x \<in> set xs \<Longrightarrow> x < length m"
  by (auto simp add: ceq_holds_def dest: chain_valid)

lemma free_list_get_holds:
  assumes "cq_holds c xs ys"
  shows "\<exists>a c1 e0. psmx_free_list_get c = Some (a, c1) \<and> a \<notin> set xs \<and> a \<notin> set (tl ys) \<and>
           ev_at (events c1) a = Some e0 \<and> nxt e0 = None \<and> cq_holds c1 xs (tl ys) \<and>
           event_queue c1 = event_queue c \<and> format c1 = format c"
proof (cases ys)
  case Nil
  with assms have fl: "psmx_cq_dequeue_event (events c) (free_list c) = Some (None, events c, free_list c)"
    by (simp add: cq_holds_def dequeue_empty)
  let ?a = "length (events c)"
  let ?c1 = "c\<lparr>events := events c @ [Some zero_event]\<rparr>"
  from fl have g: "psmx_free_list_get c = Some (?a, ?c1)"
    by (simp add: psmx_free_list_get_def ev_calloc_def)
  from assms have v: "\<And>x. x \<in> set xs \<Longrightarrow> x < ?a"
    by (auto simp add: cq_holds_def dest: ceq_holds_valid)
  then have na: "?a \<notin> set xs" by auto
  from v have "ceq_holds (events ?c1) (event_queue c) xs = ceq_holds (events c) (event_queue c) xs"
    by (intro ceq_holds_cong) (simp add: ev_at_append)
  moreover have "ceq_holds (events ?c1) (free_list c) [] = ceq_holds (events c) (free_list c) []"
    by (intro ceq_holds_cong) simp
  ultimately have "cq_holds ?c1 xs (tl ys)" using assms Nil by (simp add: cq_holds_def)
  with g na Nil show ?thesis
    by (simp add: ev_at_calloc zero_event_def)
next
  case (Cons y ys')
  with assms have h: "ceq_holds (events c) (free_list c) (y # ys')" and d: "y \<notin> set xs"
    "set xs \<inter> set ys' = {}" and q: "ceq_holds (events c) (event_queue c) xs"
    by (auto simp add: cq_holds_def)
  from dequeue_holds [OF h] obtain m' fl' e where
    dq: "psmx_cq_dequeue_event (events c) (free_list c) = Some (Some y, m', fl')"
    and h': "ceq_holds m' fl' ys'" and e: "ev_at (events c) y = Some e"
    and m': "m' = ev_set (events c) y (e\<lparr>nxt := None\<rparr>)"
    by blast
  let ?c1 = "c\<lparr>events := m', free_list := fl'\<rparr>"
  from dq have g: "psmx_free_list_get c = Some (y, ?c1)"
    by (simp add: psmx_free_list_get_def)
  from h have ny: "y \<notin> set ys'" by (simp add: ceq_holds_def)
  from d have "ceq_holds m' (event_queue c) xs = ceq_holds (events c) (event_queue c) xs"
    unfolding m' by (intro ceq_holds_cong) (auto simp add: ev_at_set)
  with q h' d have "cq_holds ?c1 xs ys'" by (simp add: cq_holds_def)
  moreover from e have "ev_at m' y = Some (e\<lparr>nxt := None\<rparr>)"
    unfolding m' by (simp add: ev_at_set ev_at_len)
  ultimately show ?thesis using g d ny Cons by simp
qed

lemma store_enqueue_holds:
  assumes "cq_holds c1 xs ys" and "a \<notin> set xs" and "a \<notin> set ys"
    and "a < length (events c1)" and "nxt e' = None"
  shows "\<exists>m ceq. psmx_cq_enqueue_event (ev_set (events c1) a e') (event_queue c1) a = Some (m, ceq) \<and>
           cq_holds (c1\<lparr>events := m, event_queue := ceq\<rparr>) (xs @ [a]) ys \<and> ev_at m a = Some e'"
proof -
  let ?m1 = "ev_set (events c1) a e'"
  from assms(2) have "ceq_holds ?m1 (event_queue c1) xs = ceq_holds (events c1) (event_queue c1) xs"
    by (intro ceq_holds_cong) (auto simp add: ev_at_set)
  with assms(1) have q: "ceq_holds ?m1 (event_queue c1) xs" by (simp add: cq_holds_def)
  from assms(4) have at: "ev_at ?m1 a = Some e'" by (simp add: ev_at_set)
  from enqueue_holds [OF q at assms(5) assms(2)] obtain m ceq where
    en: "psmx_cq_enqueue_event ?m1 (event_queue c1) a = Some (m, ceq)"
    and h: "ceq_holds m ceq (xs @ [a])"
    and fr: "\<forall>x. x \<notin> set xs \<longrightarrow> ev_at m x = ev_at ?m1 x"
    by blast
  from assms(1) have dj: "set xs \<inter> set ys = {}" by (simp add: cq_holds_def)
  have "ceq_holds m (free_list c1) ys = ceq_holds (events c1) (free_list c1) ys"
  proof (intro ceq_holds_cong)
    fix x assume "x \<in> set ys"
    with dj assms(3) have "x \<notin> set xs" "x \<noteq> a" by auto
    with fr show "ev_at m x = ev_at (events c1) x" by (simp add: ev_at_set)
  qed
  with assms(1) have "ceq_holds m (free_list c1) ys" by (simp add: cq_holds_def)
  with h dj assms(3) have "cq_holds (c1\<lparr>events := m, event_queue := ceq\<rparr>) (xs @ [a]) ys"
    by (auto simp add: cq_holds_def)
  moreover from fr assms(2) at have "ev_at m a = Some e'" by simp
  ultimately show ?thesis using en by blast
qed

lemma ev_set_same: "ev_at m a = Some e \<Longrightarrow> ev_set m a e = m"
  by (auto simp add: ev_at_def ev_set_def list_update_same_conv split: if_splits)

lemma store_holds:
  "a \<notin> set xs \<Longrightarrow> a \<notin> set ys \<Longrightarrow>
   cq_holds (c\<lparr>events := ev_set (events c) a e\<rparr>) xs ys = cq_holds c xs ys"
proof -
  assume a: "a \<notin> set xs" "a \<notin> set ys"
  have "ceq_holds (ev_set (events c) a e) (event_queue c) xs = ceq_holds (events c) (event_queue c) xs"
    using a by (intro ceq_holds_cong) (auto simp add: ev_at_set)
  moreover have "ceq_holds (ev_set (events c) a e) (free_list c) ys = ceq_holds (events c) (free_list c) ys"
    using a by (intro ceq_holds_cong) (auto simp add: ev_at_set)
  ultimately show ?thesis by (simp add: cq_holds_def)
qed

lemma free_list_get_frame:
  "cq_holds c xs ys \<Longrightarrow> psmx_free_list_get c = Some (a, c1) \<Longrightarrow> x \<in> set xs \<Longrightarrow>
   ev_at (events c1) x = ev_at (events c) x"
proof -
  assume h: "cq_holds c xs ys" and g: "psmx_free_list_get c = Some (a, c1)" and x: "x \<in> set xs"
  from h x have v: "x < length (events c)" by (auto simp add: cq_holds_def dest: ceq_holds_valid)
  show ?thesis
  proof (cases ys)
    case Nil
    with h have "psmx_cq_dequeue_event (events c) (free_list c) = Some (None, events c, free_list c)"
      by (simp add: cq_holds_def dequeue_empty)
    with g v show ?thesis
      by (auto simp add: psmx_free_list_get_def ev_calloc_def ev_at_append)
  next
    case (Cons y ys')
    with h have hy: "ceq_holds (events c) (free_list c) (y # ys')" and d: "y \<notin> set xs"
      by (auto simp add: cq_holds_def)
    from dequeue_holds [OF hy] g x d show ?thesis
      by (auto simp add: psmx_free_list_get_def ev_at_set)
  qed
qed

lemmas entry_offsets = msg_op_context_def msg_flags_def msg_len_def data_op_context_def
  data_buf_def data_flags_def data_len_def data_data_def tagged_op_context_def tagged_buf_def
  tagged_flags_def tagged_len_def tagged_data_def tagged_tag_def context_op_context_def

lemma create_event_holds:
  assumes h: "cq_holds c xs ys"
    and f: "format c \<in> {FI_CQ_FORMAT_CONTEXT, FI_CQ_FORMAT_MSG, FI_CQ_FORMAT_DATA, FI_CQ_FORMAT_TAGGED}"
  shows "\<exists>a c2 e. psmx_cq_create_event c oc buf fl len data tag olen 0 = Some (Some a, c2) \<and>
           cq_holds c2 xs (tl ys) \<and> a \<notin> set xs \<and> a \<notin> set (tl ys) \<and>
           ev_at (events c2) a = Some e \<and> nxt e = None \<and> error e = 0 \<and>
           entry_len (format c) (cqe e) = (if format c = FI_CQ_FORMAT_CONTEXT then None else Some len) \<and>
           entry_flags (format c) (cqe e) = (if format c = FI_CQ_FORMAT_CONTEXT then None else Some fl) \<and>
           entry_data (format c) (cqe e) =
             (if format c = FI_CQ_FORMAT_DATA \<or> format c = FI_CQ_FORMAT_TAGGED then Some data else None) \<and>
           event_queue c2 = event_queue c \<and> format c2 = format c \<and>
           (\<forall>x \<in> set xs. ev_at (events c2) x = ev_at (events c) x)"
proof -
  from free_list_get_holds [OF h] obtain a c1 e0 where
    g: "psmx_free_list_get c = Some (a, c1)" and na: "a \<notin> set xs" "a \<notin> set (tl ys)"
    and e0: "ev_at (events c1) a = Some e0" "nxt e0 = None" and h1: "cq_holds c1 xs (tl ys)"
    and q1: "event_queue c1 = event_queue c" "format c1 = format c"
    by blast
  from e0 have la: "a < length (events c1)" by (simp add: ev_at_len)
  have fr: "\<forall>x \<in> set xs. ev_at (events c1) x = ev_at (events c) x"
    using free_list_get_frame [OF h g] by blast
  define cq' where "cq' = (case format c of
      FI_CQ_FORMAT_CONTEXT \<Rightarrow> put_u64 context_op_context oc (cqe e0)
    | FI_CQ_FORMAT_MSG \<Rightarrow> put_u64 msg_len len (put_u64 msg_flags fl
                      (put_u64 msg_op_context oc (cqe e0)))
    | FI_CQ_FORMAT_DATA \<Rightarrow> put_u64 data_data data (put_u64 data_len len (put_u64 data_flags fl
                      (put_u64 data_buf buf (put_u64 data_op_context oc (cqe e0)))))
    | _ \<Rightarrow> put_u64 tagged_tag tag (put_u64 tagged_data data (put_u64 tagged_len len
                      (put_u64 tagged_flags fl (put_u64 tagged_buf buf
                      (put_u64 tagged_op_context oc (cqe e0)))))))"
  let ?e = "e0\<lparr>error := 0, cqe := cq'\<rparr>"
  let ?c2 = "c1\<lparr>events := ev_set (events c1) a ?e\<rparr>"
  from g e0 f have ce: "psmx_cq_create_event c oc buf fl len data tag olen 0 = Some (Some a, ?c2)"
    unfolding psmx_cq_create_event_def cq'_def by (auto simp add: Let_def)
  from h1 na have h2: "cq_holds ?c2 xs (tl ys)" by (simp add: store_holds)
  from la have at: "ev_at (events ?c2) a = Some ?e" by (simp add: ev_at_set)
  have len: "entry_len (format c) (cqe ?e) = (if format c = FI_CQ_FORMAT_CONTEXT then None else Some len)"
    using f unfolding cq'_def
    by (auto simp add: entry_len_def get_put_u64 get_put_u64_other entry_offsets)
  have flg: "entry_flags (format c) (cqe ?e) = (if format c = FI_CQ_FORMAT_CONTEXT then None else Some fl)"
    using f unfolding cq'_def
    by (auto simp add: entry_flags_def get_put_u64 get_put_u64_other entry_offsets)
  have dat: "entry_data (format c) (cqe ?e) =
             (if format c = FI_CQ_FORMAT_DATA \<or> format c = FI_CQ_FORMAT_TAGGED then Some data else None)"
    using f unfolding cq'_def
    by (auto simp add: entry_data_def get_put_u64 get_put_u64_other entry_offsets)
  from fr na have fr2: "\<forall>x \<in> set xs. ev_at (events ?c2) x = ev_at (events c) x"
    by (auto simp add: ev_at_set)
  from ce h2 na at e0 len flg dat q1 fr2 show ?thesis
    by (intro exI [of _ a] exI [of _ ?c2] exI [of _ ?e]) simp
qed

lemma cq_enqueue_holds:
  assumes c2: "cqs st q = Some c2" and q: "q \<noteq> 0" and h: "cq_holds c2 xs ys"
    and na: "a \<notin> set xs" "a \<notin> set ys" and e: "ev_at (events c2) a = Some e" "nxt e = None"
  shows "\<exists>c'. cq_enqueue st q a = Some (st\<lparr>cqs := (cqs st)(q \<mapsto> c')\<rparr>) \<and>
           cq_holds c' (xs @ [a]) ys \<and> ev_at (events c') a = Some e \<and> format c' = format c2 \<and>
           (\<forall>x e0. ev_at (events c2) x = Some e0 \<longrightarrow>
              (\<exists>e1. ev_at (events c') x = Some e1 \<and> cqe e1 = cqe e0 \<and> error e1 = error e0))"
proof -
  from e have la: "a < length (events c2)" by (simp add: ev_at_len)
  from store_enqueue_holds [OF h na la e(2)] ev_set_same [OF e(1)]
  obtain m ceq where en: "psmx_cq_enqueue_event (events c2) (event_queue c2) a = Some (m, ceq)"
    and h': "cq_holds (c2\<lparr>events := m, event_queue := ceq\<rparr>) (xs @ [a]) ys"
    and at: "ev_at m a = Some e"
    by auto
  from h have hq: "ceq_holds (events c2) (event_queue c2) xs" by (simp add: cq_holds_def)
  from enqueue_holds [OF hq e na(1)] en
  have keep: "\<forall>x e0. ev_at (events c2) x = Some e0 \<longrightarrow>
      (\<exists>e1. ev_at m x = Some e1 \<and> e1\<lparr>nxt := None\<rparr> = e0\<lparr>nxt := None\<rparr>)"
    by auto
  have keep': "\<exists>e1. ev_at m x = Some e1 \<and> cqe e1 = cqe e0 \<and> error e1 = error e0"
    if "ev_at (events c2) x = Some e0" for x e0
  proof -
    from keep that obtain e1 where e1: "ev_at m x = Some e1" "e1\<lparr>nxt := None\<rparr> = e0\<lparr>nxt := None\<rparr>"
      by blast
    from e1(2) have "cqe (e1\<lparr>nxt := None\<rparr>) = cqe (e0\<lparr>nxt := None\<rparr>)"
      "error (e1\<lparr>nxt := None\<rparr>) = error (e0\<lparr>nxt := None\<rparr>)" by simp_all
    with e1(1) show ?thesis by simp
  qed
  from c2 q en have "cq_enqueue st q a = Some (st\<lparr>cqs := (cqs st)(q \<mapsto> c2\<lparr>events := m, event_queue := ceq\<rparr>)\<rparr>)"
    by (simp add: cq_enqueue_def deref_def)
  with h' at keep' show ?thesis
    by (intro exI [of _ "c2\<lparr>events := m, event_queue := ceq\<rparr>"]) auto
qed


lemma create_from_status_holds:
  assumes c: "cqs st q = Some c" and q: "q \<noteq> 0" and h: "cq_holds c xs ys"
    and f: "format c \<in> {FI_CQ_FORMAT_CONTEXT, FI_CQ_FORMAT_MSG, FI_CQ_FORMAT_DATA, FI_CQ_FORMAT_TAGGED}"
    and ctx: "deref (ctxts st) (status_context s) = Some ctx"
    and rq: "ctxt_type ctx = PSMX_MULTI_RECV_CONTEXT \<longrightarrow> deref (mreqs st) (ctxt_user ctx) \<noteq> None"
  shows "\<exists>a c2 e. psmx_cq_create_event_from_status ev st q s d
             = Some (Some a, st\<lparr>cqs := (cqs st)(q \<mapsto> c2)\<rparr>) \<and>
           cq_holds c2 xs (tl ys) \<and> a \<notin> set xs \<and> a \<notin> set (tl ys) \<and>
           ev_at (events c2) a = Some e \<and> nxt e = None \<and>
           error e = (if error_code s \<noteq> 0 then 1 else 0) \<and>
           (error_code s = 0 \<longrightarrow> entry_len (format c) (cqe e)
              = (if format c = FI_CQ_FORMAT_CONTEXT then None else Some (nbytes s))) \<and>
           event_queue c2 = event_queue c \<and> format c2 = format c \<and>
           (\<forall>x \<in> set xs. ev_at (events c2) x = ev_at (events c) x)"
proof -
  from free_list_get_holds [OF h] obtain a c1 e0 where
    g: "psmx_free_list_get c = Some (a, c1)" and na: "a \<notin> set xs" "a \<notin> set (tl ys)"
    and e0: "ev_at (events c1) a = Some e0" "nxt e0 = None" and h1: "cq_holds c1 xs (tl ys)"
    and q1: "event_queue c1 = event_queue c" "format c1 = format c"
    by blast
  from e0 have la: "a < length (events c1)" by (simp add: ev_at_len)
  have fr: "\<forall>x \<in> set xs. ev_at (events c1) x = ev_at (events c) x"
    using free_list_get_frame [OF h g] by blast
  from c q have dc: "deref (cqs st) q = Some c" by (simp add: deref_def)
  from assms(1) g e0 dc ctx rq f obtain e' where
    ce: "psmx_cq_create_event_from_status ev st q s d
           = Some (Some a, st\<lparr>cqs := (cqs st)(q \<mapsto> c1\<lparr>events := ev_set (events c1) a e'\<rparr>)\<rparr>)"
    and n': "nxt e' = None"
    and er: "error e' = (if error_code s \<noteq> 0 then 1 else 0)"
    and ln: "error_code s = 0 \<longrightarrow> entry_len (format c) (cqe e')
              = (if format c = FI_CQ_FORMAT_CONTEXT then None else Some (nbytes s))"
    unfolding psmx_cq_create_event_from_status_def
    by (cases "ctxt_type ctx"; cases "error_code s = 0"; cases "d = 0";
        auto simp add: Let_def entry_len_def get_put_u64 get_put_u64_other entry_offsets)
  let ?c2 = "c1\<lparr>events := ev_set (events c1) a e'\<rparr>"
  from h1 na have h2: "cq_holds ?c2 xs (tl ys)" by (simp add: store_holds)
  from la have at: "ev_at (events ?c2) a = Some e'" by (simp add: ev_at_set)
  from fr na have fr2: "\<forall>x \<in> set xs. ev_at (events ?c2) x = ev_at (events c) x"
    by (auto simp add: ev_at_set)
  from ce h2 na at n' er ln q1 fr2 show ?thesis
    by (intro exI [of _ a] exI [of _ ?c2] exI [of _ e']) simp
qed

lemma poll_deliver_holds:
  assumes c: "cqs st q = Some c" and q: "q \<noteq> 0" and h: "cq_holds c xs ys"
    and f: "format c \<in> {FI_CQ_FORMAT_CONTEXT, FI_CQ_FORMAT_MSG, FI_CQ_FORMAT_DATA, FI_CQ_FORMAT_TAGGED}"
    and ctx: "deref (ctxts st) (status_context s) = Some ctx"
    and rq: "ctxt_type ctx = PSMX_MULTI_RECV_CONTEXT \<longrightarrow> deref (mreqs st) (ctxt_user ctx) \<noteq> None"
  shows "\<exists>a c' e. poll_deliver ev q s (\<lambda>s. Some d) st
             = Some (Continue, st\<lparr>cqs := (cqs st)(q \<mapsto> c')\<rparr>) \<and>
           cq_holds c' (xs @ [a]) (tl ys) \<and> ev_at (events c') a = Some e \<and>
           error e = (if error_code s \<noteq> 0 then 1 else 0) \<and>
           (error_code s = 0 \<longrightarrow> entry_len (format c) (cqe e)
              = (if format c = FI_CQ_FORMAT_CONTEXT then None else Some (nbytes s))) \<and>
           format c' = format c"
proof -
  from create_from_status_holds [OF c q h f ctx rq, of ev d] obtain a c2 e where
    ce: "psmx_cq_create_event_from_status ev st q s d
             = Some (Some a, st\<lparr>cqs := (cqs st)(q \<mapsto> c2)\<rparr>)"
    and h2: "cq_holds c2 xs (tl ys)" and na: "a \<notin> set xs" "a \<notin> set (tl ys)"
    and e: "ev_at (events c2) a = Some e" "nxt e = None"
    and p: "error e = (if error_code s \<noteq> 0 then 1 else 0)"
      "error_code s = 0 \<longrightarrow> entry_len (format c) (cqe e)
         = (if format c = FI_CQ_FORMAT_CONTEXT then None else Some (nbytes s))"
      "format c2 = format c"
    by blast
  let ?st1 = "st\<lparr>cqs := (cqs st)(q \<mapsto> c2)\<rparr>"
  have c2: "cqs ?st1 q = Some c2" by simp
  from cq_enqueue_holds [OF c2 q h2 na e] obtain c' where
    en: "cq_enqueue ?st1 q a = Some (?st1\<lparr>cqs := (cqs ?st1)(q \<mapsto> c')\<rparr>)"
    and h': "cq_holds c' (xs @ [a]) (tl ys)" "ev_at (events c') a = Some e" "format c' = format c2"
    by blast
  have "?st1\<lparr>cqs := (cqs ?st1)(q \<mapsto> c')\<rparr> = st\<lparr>cqs := (cqs st)(q \<mapsto> c')\<rparr>" by simp
  with en have en': "cq_enqueue ?st1 q a = Some (st\<lparr>cqs := (cqs st)(q \<mapsto> c')\<rparr>)" by simp
  from q ce en' have "poll_deliver ev q s (\<lambda>s. Some d) st = Some (Continue, st\<lparr>cqs := (cqs st)(q \<mapsto> c')\<rparr>)"
    by (simp add: poll_deliver_def)
  with h' p show ?thesis
    by (intro exI [of _ a] exI [of _ c'] exI [of _ e]) simp
qed


lemma poll_local_multi_recv:
  "ctxt_type ctx = PSMX_MULTI_RECV_CONTEXT \<Longrightarrow> deref (eps st) (ctxt_ep ctx) = Some ep \<Longrightarrow>
   poll_deliver ev (recv_cq ep) s (\<lambda>s. Some 0) (st\<lparr>eps := (eps st)(ctxt_ep ctx \<mapsto> ep)\<rparr>)
     = Some (Continue, st3) \<Longrightarrow>
   (if recv_cntr ep \<noteq> 0 then psmx_cntr_add (recv_cntr ep) 1 st3 else Some st3) = Some st4 \<Longrightarrow>
   poll_multi_recv ev (recv_cq ep) s ctx st4 = Some (Continue, st5) \<Longrightarrow>
   poll_local ev cq s ctx st
     = Some (if cq = 0 \<or> recv_cq ep = cq then Return 1 else Continue, st5)"
  by (simp add: poll_local_def poll_switch_def)

lemma poll_completion_multi_recv:
  "deref (ctxts st) (status_context s) = Some ctx \<Longrightarrow> ctxt_type ctx = PSMX_MULTI_RECV_CONTEXT \<Longrightarrow>
   poll_completion ev cq s st = poll_local ev cq s ctx st"
  by (simp add: poll_completion_def)

text \<open>The state after the event and the counter, before the multi-recv block.\<close>

lemma multi_recv_before_block:
  assumes ctx: "deref (ctxts st) (status_context s) = Some ctx"
    and ty: "ctxt_type ctx = PSMX_MULTI_RECV_CONTEXT"
    and ep: "deref (eps st) (ctxt_ep ctx) = Some ep"
    and req: "deref (mreqs st) (ctxt_user ctx) = Some req"
    and cn: "recv_cntr ep \<noteq> 0 \<longrightarrow> deref (cntrs st) (recv_cntr ep) \<noteq> None"
    and cqh: "recv_cq ep \<noteq> 0 \<longrightarrow> (\<exists>c. cqs st (recv_cq ep) = Some c \<and> cq_holds c xs ys \<and>
      format c \<in> {FI_CQ_FORMAT_CONTEXT, FI_CQ_FORMAT_MSG, FI_CQ_FORMAT_DATA, FI_CQ_FORMAT_TAGGED})"
  shows "\<exists>st3 st4.
      poll_deliver ev (recv_cq ep) s (\<lambda>s. Some 0) (st\<lparr>eps := (eps st)(ctxt_ep ctx \<mapsto> ep)\<rparr>)
        = Some (Continue, st3) \<and>
      (if recv_cntr ep \<noteq> 0 then psmx_cntr_add (recv_cntr ep) 1 st3 else Some st3) = Some st4 \<and>
      mreqs st4 = mreqs st \<and> ctxts st4 = ctxts st \<and> mq_posted st4 = mq_posted st \<and>
      mq_irecv_rc st4 = mq_irecv_rc st \<and> mq_irecv_req st4 = mq_irecv_req st \<and>
      (recv_cq ep = 0 \<longrightarrow> cqs st4 = cqs st) \<and>
      (recv_cq ep \<noteq> 0 \<longrightarrow> (\<exists>c c' a e. cqs st (recv_cq ep) = Some c \<and>
         cqs st4 = (cqs st)(recv_cq ep \<mapsto> c') \<and> format c' = format c \<and>
         cq_holds c' (xs @ [a]) (tl ys) \<and> ev_at (events c') a = Some e \<and>
         error e = (if error_code s \<noteq> 0 then 1 else 0) \<and>
         (error_code s = 0 \<longrightarrow> entry_len (format c) (cqe e)
            = (if format c = FI_CQ_FORMAT_CONTEXT then None else Some (nbytes s)))))"
proof -
  let ?st2 = "st\<lparr>eps := (eps st)(ctxt_ep ctx \<mapsto> ep)\<rparr>"
  have cnt: "\<exists>st4. (if recv_cntr ep \<noteq> 0 then psmx_cntr_add (recv_cntr ep) 1 st3 else Some st3) = Some st4 \<and>
      mreqs st4 = mreqs st3 \<and> ctxts st4 = ctxts st3 \<and> mq_posted st4 = mq_posted st3 \<and>
      mq_irecv_rc st4 = mq_irecv_rc st3 \<and> mq_irecv_req st4 = mq_irecv_req st3 \<and> cqs st4 = cqs st3"
    if "cntrs st3 = cntrs st" for st3
    using cn that by (auto simp add: psmx_cntr_add_def)
  show ?thesis
  proof (cases "recv_cq ep = 0")
    case True
    then have d: "poll_deliver ev (recv_cq ep) s (\<lambda>s. Some 0) ?st2 = Some (Continue, ?st2)"
      by (simp add: poll_deliver_def)
    from cnt [of ?st2] obtain st4 where
      "(if recv_cntr ep \<noteq> 0 then psmx_cntr_add (recv_cntr ep) 1 ?st2 else Some ?st2) = Some st4"
      "mreqs st4 = mreqs ?st2" "ctxts st4 = ctxts ?st2" "mq_posted st4 = mq_posted ?st2"
      "mq_irecv_rc st4 = mq_irecv_rc ?st2" "mq_irecv_req st4 = mq_irecv_req ?st2" "cqs st4 = cqs ?st2"
      by auto
    with d True show ?thesis by (intro exI [of _ ?st2] exI [of _ st4]) simp
  next
    case False
    with cqh obtain c where c: "cqs st (recv_cq ep) = Some c" "cq_holds c xs ys"
      "format c \<in> {FI_CQ_FORMAT_CONTEXT, FI_CQ_FORMAT_MSG, FI_CQ_FORMAT_DATA, FI_CQ_FORMAT_TAGGED}"
      by blast
    have c2: "cqs ?st2 (recv_cq ep) = Some c" using c by simp
    have ctx2: "deref (ctxts ?st2) (status_context s) = Some ctx" using ctx by simp
    have rq2: "ctxt_type ctx = PSMX_MULTI_RECV_CONTEXT \<longrightarrow> deref (mreqs ?st2) (ctxt_user ctx) \<noteq> None"
      using req by simp
    from poll_deliver_holds [OF c2 False c(2,3) ctx2 rq2, of ev 0] obtain a c' e where
      d: "poll_deliver ev (recv_cq ep) s (\<lambda>s. Some 0) ?st2
            = Some (Continue, ?st2\<lparr>cqs := (cqs ?st2)(recv_cq ep \<mapsto> c')\<rparr>)"
      and p: "cq_holds c' (xs @ [a]) (tl ys)" "ev_at (events c') a = Some e"
        "error e = (if error_code s \<noteq> 0 then 1 else 0)"
        "error_code s = 0 \<longrightarrow> entry_len (format c) (cqe e)
            = (if format c = FI_CQ_FORMAT_CONTEXT then None else Some (nbytes s))"
        "format c' = format c"
      by blast
    let ?st3 = "?st2\<lparr>cqs := (cqs ?st2)(recv_cq ep \<mapsto> c')\<rparr>"
    from cnt [of ?st3] obtain st4 where s4:
      "(if recv_cntr ep \<noteq> 0 then psmx_cntr_add (recv_cntr ep) 1 ?st3 else Some ?st3) = Some st4"
      "mreqs st4 = mreqs ?st3" "ctxts st4 = ctxts ?st3" "mq_posted st4 = mq_posted ?st3"
      "mq_irecv_rc st4 = mq_irecv_rc ?st3" "mq_irecv_req st4 = mq_irecv_req ?st3" "cqs st4 = cqs ?st3"
      by auto
    have "\<exists>c c' a e. cqs st (recv_cq ep) = Some c \<and>
         cqs st4 = (cqs st)(recv_cq ep \<mapsto> c') \<and> format c' = format c \<and>
         cq_holds c' (xs @ [a]) (tl ys) \<and> ev_at (events c') a = Some e \<and>
         error e = (if error_code s \<noteq> 0 then 1 else 0) \<and>
         (error_code s = 0 \<longrightarrow> entry_len (format c) (cqe e)
            = (if format c = FI_CQ_FORMAT_CONTEXT then None else Some (nbytes s)))"
      using c(1) p s4(7) by (intro exI [of _ c] exI [of _ c'] exI [of _ a] exI [of _ e]) simp
    with d s4 False show ?thesis by (intro exI [of _ ?st3] exI [of _ st4]) simp
  qed
qed


lemma multi_recv_block_rearm:
  assumes "deref (mreqs st) (ctxt_user ctx) = Some req"
    and "req_offset req + nbytes s + req_min_buf_size req \<le> req_len req"
    and "mq_irecv_rc st = PSM_OK"
  shows "poll_multi_recv ev q s ctx st = Some (Continue,
     st\<lparr>mreqs := (mreqs st)(ctxt_user ctx \<mapsto> req\<lparr>req_offset := req_offset req + nbytes s\<rparr>),
        mq_posted := mq_posted st @
          [\<lparr>post_tag = req_tag req, post_tagsel = req_tagsel req, post_flags = req_flag req,
            post_buf = req_buf req + (req_offset req + nbytes s),
            post_len = req_len req - (req_offset req + nbytes s),
            post_context = status_context s\<rparr>],
        ctxts := (ctxts st)(status_context s \<mapsto> ctx\<lparr>ctxt_req := mq_irecv_req st\<rparr>)\<rparr>)"
  using assms by (simp add: poll_multi_recv_def psm_mq_irecv_def Let_def)

lemma multi_recv_block_rearm_fails:
  assumes "deref (mreqs st) (ctxt_user ctx) = Some req"
    and "req_offset req + nbytes s + req_min_buf_size req \<le> req_len req"
    and "mq_irecv_rc st \<noteq> PSM_OK"
  shows "poll_multi_recv ev q s ctx st = Some (Return (psmx_errno ev (mq_irecv_rc st)),
     st\<lparr>mreqs := (mreqs st)(ctxt_user ctx \<mapsto> req\<lparr>req_offset := req_offset req + nbytes s\<rparr>)\<rparr>)"
  using assms by (simp add: poll_multi_recv_def psm_mq_irecv_def Let_def)

lemma poll_local_multi_recv_return:
  "ctxt_type ctx = PSMX_MULTI_RECV_CONTEXT \<Longrightarrow> deref (eps st) (ctxt_ep ctx) = Some ep \<Longrightarrow>
   poll_deliver ev (recv_cq ep) s (\<lambda>s. Some 0) (st\<lparr>eps := (eps st)(ctxt_ep ctx \<mapsto> ep)\<rparr>)
     = Some (Continue, st3) \<Longrightarrow>
   (if recv_cntr ep \<noteq> 0 then psmx_cntr_add (recv_cntr ep) 1 st3 else Some st3) = Some st4 \<Longrightarrow>
   poll_multi_recv ev (recv_cq ep) s ctx st4 = Some (Return rc, st5) \<Longrightarrow>
   poll_local ev cq s ctx st = Some (Return rc, st5)"
  by (simp add: poll_local_def poll_switch_def)

text \<open>
  C2, as the code has it. For a completion of a multi-recv buffer after which the
  remaining capacity still admits a chunk of the minimum size, the driver advances the
  offset of the buffer and posts a new receive at the advanced offset, for the remaining
  length, with the tag, mask and flags of the buffer. When \<open>psm_mq_irecv\<close> succeeds the
  new request is stored in the context and the loop goes on (or returns 1); when it
  fails nothing is posted and the driver returns the translated code. When the endpoint
  has no receive queue no event is produced. When it has one, the driver enqueues
  exactly one event to it, the completion of this message, whose length field is the
  number of bytes of the message, whether the re-arm succeeds or not: a reader of the
  queue sees the intermediate completions.
\<close>

theorem multi_recv_rearm:
  assumes ctx: "deref (ctxts st) (status_context s) = Some ctx"
    and ty: "ctxt_type ctx = PSMX_MULTI_RECV_CONTEXT"
    and ep: "deref (eps st) (ctxt_ep ctx) = Some ep"
    and req: "deref (mreqs st) (ctxt_user ctx) = Some req"
    and cn: "recv_cntr ep \<noteq> 0 \<longrightarrow> deref (cntrs st) (recv_cntr ep) \<noteq> None"
    and cqh: "recv_cq ep \<noteq> 0 \<longrightarrow> (\<exists>c. cqs st (recv_cq ep) = Some c \<and> cq_holds c xs ys \<and>
      format c \<in> {FI_CQ_FORMAT_CONTEXT, FI_CQ_FORMAT_MSG, FI_CQ_FORMAT_DATA, FI_CQ_FORMAT_TAGGED})"
    and room: "req_offset req + nbytes s + req_min_buf_size req \<le> req_len req"
  shows "\<exists>st'. poll_completion ev cq s st
           = Some (if mq_irecv_rc st \<noteq> PSM_OK then Return (psmx_errno ev (mq_irecv_rc st))
                   else if cq = 0 \<or> recv_cq ep = cq then Return 1 else Continue, st') \<and>
      mq_posted st' = (if mq_irecv_rc st \<noteq> PSM_OK then mq_posted st else mq_posted st @
        [\<lparr>post_tag = req_tag req, post_tagsel = req_tagsel req, post_flags = req_flag req,
          post_buf = req_buf req + (req_offset req + nbytes s),
          post_len = req_len req - (req_offset req + nbytes s),
          post_context = status_context s\<rparr>]) \<and>
      mreqs st' = (mreqs st)(ctxt_user ctx \<mapsto> req\<lparr>req_offset := req_offset req + nbytes s\<rparr>) \<and>
      ctxts st' = (if mq_irecv_rc st \<noteq> PSM_OK then ctxts st
                   else (ctxts st)(status_context s \<mapsto> ctx\<lparr>ctxt_req := mq_irecv_req st\<rparr>)) \<and>
      (recv_cq ep = 0 \<longrightarrow> cqs st' = cqs st) \<and>
      (recv_cq ep \<noteq> 0 \<longrightarrow> (\<exists>c c' a e. cqs st (recv_cq ep) = Some c \<and>
         cqs st' (recv_cq ep) = Some c' \<and> cq_holds c' (xs @ [a]) (tl ys) \<and>
         ev_at (events c') a = Some e \<and>
         error e = (if error_code s \<noteq> 0 then 1 else 0) \<and>
         (error_code s = 0 \<longrightarrow> entry_len (format c) (cqe e)
            = (if format c = FI_CQ_FORMAT_CONTEXT then None else Some (nbytes s)))))"
proof -
  from multi_recv_before_block [OF ctx ty ep req cn cqh, of ev] obtain st3 st4 where
    d: "poll_deliver ev (recv_cq ep) s (\<lambda>s. Some 0) (st\<lparr>eps := (eps st)(ctxt_ep ctx \<mapsto> ep)\<rparr>)
        = Some (Continue, st3)"
    and c: "(if recv_cntr ep \<noteq> 0 then psmx_cntr_add (recv_cntr ep) 1 st3 else Some st3) = Some st4"
    and same: "mreqs st4 = mreqs st" "ctxts st4 = ctxts st" "mq_posted st4 = mq_posted st"
      "mq_irecv_rc st4 = mq_irecv_rc st" "mq_irecv_req st4 = mq_irecv_req st"
    and q0: "recv_cq ep = 0 \<longrightarrow> cqs st4 = cqs st"
    and q1: "recv_cq ep \<noteq> 0 \<longrightarrow> (\<exists>c c' a e. cqs st (recv_cq ep) = Some c \<and>
         cqs st4 = (cqs st)(recv_cq ep \<mapsto> c') \<and> format c' = format c \<and>
         cq_holds c' (xs @ [a]) (tl ys) \<and> ev_at (events c') a = Some e \<and>
         error e = (if error_code s \<noteq> 0 then 1 else 0) \<and>
         (error_code s = 0 \<longrightarrow> entry_len (format c) (cqe e)
            = (if format c = FI_CQ_FORMAT_CONTEXT then None else Some (nbytes s))))"
    by blast
  from req same have req4: "deref (mreqs st4) (ctxt_user ctx) = Some req" by (simp add: deref_def)
  let ?rq = "(mreqs st4)(ctxt_user ctx \<mapsto> req\<lparr>req_offset := req_offset req + nbytes s\<rparr>)"
  let ?ok5 = "st4\<lparr>mreqs := ?rq,
        mq_posted := mq_posted st4 @
          [\<lparr>post_tag = req_tag req, post_tagsel = req_tagsel req, post_flags = req_flag req,
            post_buf = req_buf req + (req_offset req + nbytes s),
            post_len = req_len req - (req_offset req + nbytes s),
            post_context = status_context s\<rparr>],
        ctxts := (ctxts st4)(status_context s \<mapsto> ctx\<lparr>ctxt_req := mq_irecv_req st4\<rparr>)\<rparr>"
  let ?st5 = "if mq_irecv_rc st \<noteq> PSM_OK then st4\<lparr>mreqs := ?rq\<rparr> else ?ok5"
  have pc: "poll_completion ev cq s st
     = Some (if mq_irecv_rc st \<noteq> PSM_OK then Return (psmx_errno ev (mq_irecv_rc st))
             else if cq = 0 \<or> recv_cq ep = cq then Return 1 else Continue, ?st5)"
  proof (cases "mq_irecv_rc st = PSM_OK")
    case True
    with same have ok4: "mq_irecv_rc st4 = PSM_OK" by simp
    have m: "poll_multi_recv ev (recv_cq ep) s ctx st4 = Some (Continue, ?ok5)"
      by (rule multi_recv_block_rearm [OF req4 room ok4])
    from poll_local_multi_recv [OF ty ep d c m] poll_completion_multi_recv [OF ctx ty] True
    show ?thesis by simp
  next
    case False
    with same have no4: "mq_irecv_rc st4 \<noteq> PSM_OK" by simp
    from multi_recv_block_rearm_fails [OF req4 room no4, of ev "recv_cq ep"] same
    have m: "poll_multi_recv ev (recv_cq ep) s ctx st4
               = Some (Return (psmx_errno ev (mq_irecv_rc st)), st4\<lparr>mreqs := ?rq\<rparr>)"
      by simp
    from poll_local_multi_recv_return [OF ty ep d c m] poll_completion_multi_recv [OF ctx ty] False
    show ?thesis by simp
  qed
  have cq5: "cqs ?st5 = cqs st4" by simp
  have "recv_cq ep \<noteq> 0 \<longrightarrow> (\<exists>c c' a e. cqs st (recv_cq ep) = Some c \<and>
         cqs ?st5 (recv_cq ep) = Some c' \<and> cq_holds c' (xs @ [a]) (tl ys) \<and>
         ev_at (events c') a = Some e \<and>
         error e = (if error_code s \<noteq> 0 then 1 else 0) \<and>
         (error_code s = 0 \<longrightarrow> entry_len (format c) (cqe e)
            = (if format c = FI_CQ_FORMAT_CONTEXT then None else Some (nbytes s))))"
  proof
    assume "recv_cq ep \<noteq> 0"
    with q1 obtain c c' a e where "cqs st (recv_cq ep) = Some c"
      "cqs st4 = (cqs st)(recv_cq ep \<mapsto> c')" "cq_holds c' (xs @ [a]) (tl ys)"
      "ev_at (events c') a = Some e" "error e = (if error_code s \<noteq> 0 then 1 else 0)"
      "error_code s = 0 \<longrightarrow> entry_len (format c) (cqe e)
            = (if format c = FI_CQ_FORMAT_CONTEXT then None else Some (nbytes s))"
      by blast
    then show "\<exists>c c' a e. cqs st (recv_cq ep) = Some c \<and>
         cqs ?st5 (recv_cq ep) = Some c' \<and> cq_holds c' (xs @ [a]) (tl ys) \<and>
         ev_at (events c') a = Some e \<and>
         error e = (if error_code s \<noteq> 0 then 1 else 0) \<and>
         (error_code s = 0 \<longrightarrow> entry_len (format c) (cqe e)
            = (if format c = FI_CQ_FORMAT_CONTEXT then None else Some (nbytes s)))"
      unfolding cq5 by (intro exI [of _ c] exI [of _ c'] exI [of _ a] exI [of _ e]) simp
  qed
  moreover have "recv_cq ep = 0 \<longrightarrow> cqs ?st5 = cqs st" using q0 by simp
  ultimately show ?thesis using pc same
    by (intro exI [of _ ?st5]) simp
qed

lemma multi_recv_block_final_no_cq:
  assumes "deref (mreqs st) (ctxt_user ctx) = Some req"
    and "\<not> req_offset req + nbytes s + req_min_buf_size req \<le> req_len req"
  shows "poll_multi_recv ev 0 s ctx st
           = Some (Continue, st\<lparr>mreqs := (mreqs st)(ctxt_user ctx := None)\<rparr>)"
  using assms by (simp add: poll_multi_recv_def Let_def)

lemma multi_recv_block_final:
  assumes req: "deref (mreqs st) (ctxt_user ctx) = Some req"
    and full: "\<not> req_offset req + nbytes s + req_min_buf_size req \<le> req_len req"
    and q: "q \<noteq> 0" and c: "cqs st q = Some c" and h: "cq_holds c zs ys"
    and f: "format c \<in> {FI_CQ_FORMAT_CONTEXT, FI_CQ_FORMAT_MSG, FI_CQ_FORMAT_DATA, FI_CQ_FORMAT_TAGGED}"
  shows "\<exists>b c' eb. poll_multi_recv ev q s ctx st
           = Some (Continue, st\<lparr>mreqs := (mreqs st)(ctxt_user ctx := None),
                                  cqs := (cqs st)(q \<mapsto> c')\<rparr>) \<and>
      cq_holds c' (zs @ [b]) (tl ys) \<and> ev_at (events c') b = Some eb \<and> error eb = 0 \<and>
      entry_len (format c) (cqe eb)
        = (if format c = FI_CQ_FORMAT_CONTEXT then None else Some (req_len req)) \<and>
      entry_flags (format c) (cqe eb)
        = (if format c = FI_CQ_FORMAT_CONTEXT then None else Some (FI_MULTI_RECV ev)) \<and>
      entry_data (format c) (cqe eb)
        = (if format c = FI_CQ_FORMAT_DATA \<or> format c = FI_CQ_FORMAT_TAGGED
           then Some (req_len req - (req_offset req + nbytes s)) else None) \<and>
      (\<forall>x \<in> set zs. \<forall>e0. ev_at (events c) x = Some e0 \<longrightarrow>
         (\<exists>e1. ev_at (events c') x = Some e1 \<and> cqe e1 = cqe e0 \<and> error e1 = error e0))"
proof -
  let ?req = "req\<lparr>req_offset := req_offset req + nbytes s\<rparr>"
  let ?st1 = "st\<lparr>mreqs := (mreqs st)(ctxt_user ctx \<mapsto> ?req)\<rparr>"
  from create_event_holds [OF h f, of "req_context req" "req_buf req" "FI_MULTI_RECV ev"
      "req_len req" "req_len req - (req_offset req + nbytes s)" 0 0]
  obtain b c2 eb where
    ce: "psmx_cq_create_event c (req_context req) (req_buf req) (FI_MULTI_RECV ev) (req_len req)
           (req_len req - (req_offset req + nbytes s)) 0 0 0 = Some (Some b, c2)"
    and h2: "cq_holds c2 zs (tl ys)" and nb: "b \<notin> set zs" "b \<notin> set (tl ys)"
    and eb: "ev_at (events c2) b = Some eb" "nxt eb = None"
    and p: "error eb = 0"
      "entry_len (format c) (cqe eb)
        = (if format c = FI_CQ_FORMAT_CONTEXT then None else Some (req_len req))"
      "entry_flags (format c) (cqe eb)
        = (if format c = FI_CQ_FORMAT_CONTEXT then None else Some (FI_MULTI_RECV ev))"
      "entry_data (format c) (cqe eb)
        = (if format c = FI_CQ_FORMAT_DATA \<or> format c = FI_CQ_FORMAT_TAGGED
           then Some (req_len req - (req_offset req + nbytes s)) else None)"
    and fr: "\<forall>x \<in> set zs. ev_at (events c2) x = ev_at (events c) x"
    by blast
  let ?st' = "?st1\<lparr>cqs := (cqs ?st1)(q \<mapsto> c2)\<rparr>"
  have c2: "cqs ?st' q = Some c2" by simp
  from cq_enqueue_holds [OF c2 q h2 nb eb] obtain c' where
    en: "cq_enqueue ?st' q b = Some (?st'\<lparr>cqs := (cqs ?st')(q \<mapsto> c')\<rparr>)"
    and h': "cq_holds c' (zs @ [b]) (tl ys)" "ev_at (events c') b = Some eb"
    and keep: "\<forall>x e0. ev_at (events c2) x = Some e0 \<longrightarrow>
              (\<exists>e1. ev_at (events c') x = Some e1 \<and> cqe e1 = cqe e0 \<and> error e1 = error e0)"
    by blast
  have st_eq: "(?st'\<lparr>cqs := (cqs ?st')(q \<mapsto> c')\<rparr>)\<lparr>mreqs := (mreqs (?st'\<lparr>cqs := (cqs ?st')(q \<mapsto> c')\<rparr>))
                  (ctxt_user ctx := None)\<rparr>
      = st\<lparr>mreqs := (mreqs st)(ctxt_user ctx := None), cqs := (cqs st)(q \<mapsto> c')\<rparr>"
    by simp
  from c q have dc: "deref (cqs ?st1) q = Some c" by (simp add: deref_def)
  have "poll_multi_recv ev q s ctx st
           = Some (Continue, st\<lparr>mreqs := (mreqs st)(ctxt_user ctx := None),
                                  cqs := (cqs st)(q \<mapsto> c')\<rparr>)"
    unfolding poll_multi_recv_def using req full q dc ce en st_eq
    by (simp add: Let_def)
  moreover from fr keep have "\<forall>x \<in> set zs. \<forall>e0. ev_at (events c) x = Some e0 \<longrightarrow>
         (\<exists>e1. ev_at (events c') x = Some e1 \<and> cqe e1 = cqe e0 \<and> error e1 = error e0)"
    by simp
  ultimately show ?thesis using h' p
    by (intro exI [of _ b] exI [of _ c'] exI [of _ eb]) simp
qed

text \<open>
  C1, as the code has it. For a completion of a multi-recv buffer after which the
  remaining capacity is too small for a chunk of the minimum size, the driver posts no
  receive and releases the tracking record. When the endpoint has no receive queue no
  event is produced. When it has one, the driver enqueues two events to it: the
  completion of this message, whose length field is the number of bytes of the message,
  and then one final event flagged \<open>FI_MULTI_RECV\<close>, whose length field is the total
  length of the buffer and whose data field is the capacity left unused.
\<close>

theorem multi_recv_final:
  assumes ctx: "deref (ctxts st) (status_context s) = Some ctx"
    and ty: "ctxt_type ctx = PSMX_MULTI_RECV_CONTEXT"
    and ep: "deref (eps st) (ctxt_ep ctx) = Some ep"
    and req: "deref (mreqs st) (ctxt_user ctx) = Some req"
    and cn: "recv_cntr ep \<noteq> 0 \<longrightarrow> deref (cntrs st) (recv_cntr ep) \<noteq> None"
    and cqh: "recv_cq ep \<noteq> 0 \<longrightarrow> (\<exists>c. cqs st (recv_cq ep) = Some c \<and> cq_holds c xs ys \<and>
      format c \<in> {FI_CQ_FORMAT_CONTEXT, FI_CQ_FORMAT_MSG, FI_CQ_FORMAT_DATA, FI_CQ_FORMAT_TAGGED})"
    and full: "\<not> req_offset req + nbytes s + req_min_buf_size req \<le> req_len req"
  shows "\<exists>st'. poll_completion ev cq s st
           = Some (if cq = 0 \<or> recv_cq ep = cq then Return 1 else Continue, st') \<and>
      mq_posted st' = mq_posted st \<and>
      mreqs st' = (mreqs st)(ctxt_user ctx := None) \<and>
      (recv_cq ep = 0 \<longrightarrow> cqs st' = cqs st) \<and>
      (recv_cq ep \<noteq> 0 \<longrightarrow> (\<exists>c c' a b ea eb. cqs st (recv_cq ep) = Some c \<and>
         cqs st' (recv_cq ep) = Some c' \<and> cq_holds c' (xs @ [a, b]) (tl (tl ys)) \<and>
         ev_at (events c') a = Some ea \<and> ev_at (events c') b = Some eb \<and>
         error ea = (if error_code s \<noteq> 0 then 1 else 0) \<and>
         (error_code s = 0 \<longrightarrow> entry_len (format c) (cqe ea)
            = (if format c = FI_CQ_FORMAT_CONTEXT then None else Some (nbytes s))) \<and>
         error eb = 0 \<and>
         entry_len (format c) (cqe eb)
           = (if format c = FI_CQ_FORMAT_CONTEXT then None else Some (req_len req)) \<and>
         entry_flags (format c) (cqe eb)
           = (if format c = FI_CQ_FORMAT_CONTEXT then None else Some (FI_MULTI_RECV ev)) \<and>
         entry_data (format c) (cqe eb)
           = (if format c = FI_CQ_FORMAT_DATA \<or> format c = FI_CQ_FORMAT_TAGGED
              then Some (req_len req - (req_offset req + nbytes s)) else None)))"
proof -
  from multi_recv_before_block [OF ctx ty ep req cn cqh, of ev] obtain st3 st4 where
    d: "poll_deliver ev (recv_cq ep) s (\<lambda>s. Some 0) (st\<lparr>eps := (eps st)(ctxt_ep ctx \<mapsto> ep)\<rparr>)
        = Some (Continue, st3)"
    and c: "(if recv_cntr ep \<noteq> 0 then psmx_cntr_add (recv_cntr ep) 1 st3 else Some st3) = Some st4"
    and same: "mreqs st4 = mreqs st" "ctxts st4 = ctxts st" "mq_posted st4 = mq_posted st"
    and q0: "recv_cq ep = 0 \<longrightarrow> cqs st4 = cqs st"
    and q1: "recv_cq ep \<noteq> 0 \<longrightarrow> (\<exists>c c' a e. cqs st (recv_cq ep) = Some c \<and>
         cqs st4 = (cqs st)(recv_cq ep \<mapsto> c') \<and> format c' = format c \<and>
         cq_holds c' (xs @ [a]) (tl ys) \<and> ev_at (events c') a = Some e \<and>
         error e = (if error_code s \<noteq> 0 then 1 else 0) \<and>
         (error_code s = 0 \<longrightarrow> entry_len (format c) (cqe e)
            = (if format c = FI_CQ_FORMAT_CONTEXT then None else Some (nbytes s))))"
    by blast
  from req same have req4: "deref (mreqs st4) (ctxt_user ctx) = Some req" by (simp add: deref_def)
  note loc = poll_local_multi_recv [OF ty ep d c, where cq = cq]
  note pc = poll_completion_multi_recv [OF ctx ty, of ev cq]
  show ?thesis
  proof (cases "recv_cq ep = 0")
    case True
    let ?st5 = "st4\<lparr>mreqs := (mreqs st4)(ctxt_user ctx := None)\<rparr>"
    from multi_recv_block_final_no_cq [OF req4 full, of ev] True
    have "poll_multi_recv ev (recv_cq ep) s ctx st4 = Some (Continue, ?st5)" by simp
    from loc [OF this] pc True same q0 show ?thesis
      by (intro exI [of _ ?st5]) simp
  next
    case False
    with q1 cqh obtain c c1 a ea where c: "cqs st (recv_cq ep) = Some c"
      and c4: "cqs st4 = (cqs st)(recv_cq ep \<mapsto> c1)" and f1: "format c1 = format c"
      and h1: "cq_holds c1 (xs @ [a]) (tl ys)" and ea: "ev_at (events c1) a = Some ea"
      and pa: "error ea = (if error_code s \<noteq> 0 then 1 else 0)"
        "error_code s = 0 \<longrightarrow> entry_len (format c) (cqe ea)
            = (if format c = FI_CQ_FORMAT_CONTEXT then None else Some (nbytes s))"
      and fc: "format c \<in> {FI_CQ_FORMAT_CONTEXT, FI_CQ_FORMAT_MSG, FI_CQ_FORMAT_DATA, FI_CQ_FORMAT_TAGGED}"
      by force
    from c4 have c4': "cqs st4 (recv_cq ep) = Some c1" by simp
    from fc f1 have fc1: "format c1 \<in> {FI_CQ_FORMAT_CONTEXT, FI_CQ_FORMAT_MSG, FI_CQ_FORMAT_DATA,
      FI_CQ_FORMAT_TAGGED}" by simp
    from multi_recv_block_final [OF req4 full False c4' h1 fc1, of ev] obtain b c' eb where
      m: "poll_multi_recv ev (recv_cq ep) s ctx st4
           = Some (Continue, st4\<lparr>mreqs := (mreqs st4)(ctxt_user ctx := None),
                                  cqs := (cqs st4)(recv_cq ep \<mapsto> c')\<rparr>)"
      and h': "cq_holds c' ((xs @ [a]) @ [b]) (tl (tl ys))" and eb: "ev_at (events c') b = Some eb"
      and pb: "error eb = 0"
        "entry_len (format c1) (cqe eb)
          = (if format c1 = FI_CQ_FORMAT_CONTEXT then None else Some (req_len req))"
        "entry_flags (format c1) (cqe eb)
          = (if format c1 = FI_CQ_FORMAT_CONTEXT then None else Some (FI_MULTI_RECV ev))"
        "entry_data (format c1) (cqe eb)
          = (if format c1 = FI_CQ_FORMAT_DATA \<or> format c1 = FI_CQ_FORMAT_TAGGED
             then Some (req_len req - (req_offset req + nbytes s)) else None)"
      and keep: "\<forall>x \<in> set (xs @ [a]). \<forall>e0. ev_at (events c1) x = Some e0 \<longrightarrow>
         (\<exists>e1. ev_at (events c') x = Some e1 \<and> cqe e1 = cqe e0 \<and> error e1 = error e0)"
      by blast
    from keep ea obtain ea' where ea': "ev_at (events c') a = Some ea'" "cqe ea' = cqe ea"
      "error ea' = error ea" by auto
    let ?st5 = "st4\<lparr>mreqs := (mreqs st4)(ctxt_user ctx := None),
                                  cqs := (cqs st4)(recv_cq ep \<mapsto> c')\<rparr>"
    have "\<exists>c c' a b ea eb. cqs st (recv_cq ep) = Some c \<and>
         cqs ?st5 (recv_cq ep) = Some c' \<and> cq_holds c' (xs @ [a, b]) (tl (tl ys)) \<and>
         ev_at (events c') a = Some ea \<and> ev_at (events c') b = Some eb \<and>
         error ea = (if error_code s \<noteq> 0 then 1 else 0) \<and>
         (error_code s = 0 \<longrightarrow> entry_len (format c) (cqe ea)
            = (if format c = FI_CQ_FORMAT_CONTEXT then None else Some (nbytes s))) \<and>
         error eb = 0 \<and>
         entry_len (format c) (cqe eb)
           = (if format c = FI_CQ_FORMAT_CONTEXT then None else Some (req_len req)) \<and>
         entry_flags (format c) (cqe eb)
           = (if format c = FI_CQ_FORMAT_CONTEXT then None else Some (FI_MULTI_RECV ev)) \<and>
         entry_data (format c) (cqe eb)
           = (if format c = FI_CQ_FORMAT_DATA \<or> format c = FI_CQ_FORMAT_TAGGED
              then Some (req_len req - (req_offset req + nbytes s)) else None)"
      using c h' ea' eb pa pb f1
      by (intro exI [of _ c] exI [of _ c'] exI [of _ a] exI [of _ b] exI [of _ ea'] exI [of _ eb])
         simp
    with loc [OF m] pc False same show ?thesis
      by (intro exI [of _ ?st5]) simp
  qed
qed

lemma get_u64_memcpy: "off + 8 \<le> n \<Longrightarrow> get_u64 off (memcpy b m n) = get_u64 off m"
proof -
  have "le_decode k (off + j) (memcpy b m n) = le_decode k (off + j) m" if "off + j + k \<le> n" for k j
    using that
  proof (induction k arbitrary: j)
    case 0
    show ?case by simp
  next
    case (Suc k)
    from Suc.prems have "off + Suc j + k \<le> n" by simp
    from Suc.IH [OF this] Suc.prems show ?case by (simp add: memcpy_def)
  qed
  from this [of 0 8] show "off + 8 \<le> n \<Longrightarrow> get_u64 off (memcpy b m n) = get_u64 off m"
    by (simp add: get_u64_def)
qed

lemmas mrecv_defs = st_mrecv_def ctx_mrecv_def req0_def

text \<open>
  C1 as stated fails: for a buffer of length 100 and minimum chunk 10, a message of 95
  bytes makes the driver enqueue two events, and the length field of the final one is
  100, the length of the buffer, not the 95 bytes consumed.
\<close>

theorem multi_recv_final_counterexample:
  "\<exists>st' c ea eb. psmx_cq_poll_mq env0 16 (st_mrecv 95) = Some (1, st') \<and>
     cqs st' 16 = Some c \<and> cq_holds c [0, 1] [] \<and>
     ev_at (events c) 0 = Some ea \<and> ev_at (events c) 1 = Some eb \<and>
     entry_len FI_CQ_FORMAT_TAGGED (cqe ea) = Some 95 \<and>
     entry_len FI_CQ_FORMAT_TAGGED (cqe eb) = Some 100 \<and>
     entry_data FI_CQ_FORMAT_TAGGED (cqe eb) = Some 5 \<and>
     mreqs st' 64 = None"
  by (simp add: mrecv_defs eval_defs cq_holds_def ceq_holds_def entry_len_def entry_data_def
      get_put_u64 get_put_u64_other entry_offsets)

text \<open>
  C2 as stated fails: after a message of 20 bytes the buffer is re-armed at offset 20,
  and a read on the queue returns the completion of that message.
\<close>

theorem multi_recv_rearm_counterexample:
  "\<exists>out sa st'. psmx_cq_read env0 16 (Some zero_mem) 48 (st_mrecv 20) = Some (48, Some out, sa, st') \<and>
     get_u64 tagged_len out = 20 \<and>
     map_option req_offset (mreqs st' 64) = Some 20 \<and>
     map post_buf (mq_posted st') = [4116]"
  by (simp add: psmx_cq_read_def psmx_cq_readfrom_def read_progress_def mrecv_defs eval_defs
      psmx_free_list_put_def psmx_cq_get_event_src_addr_def sizeof_cqe_def
      get_u64_memcpy get_put_u64 get_put_u64_other entry_offsets psm_mq_irecv_def)

lemma st_mrecv_facts:
  "deref (ctxts (st_mrecv n)) (status_context (status0 n)) = Some ctx_mrecv"
  "ctxt_type ctx_mrecv = PSMX_MULTI_RECV_CONTEXT"
  "deref (eps (st_mrecv n)) (ctxt_ep ctx_mrecv) = Some ep0"
  "deref (mreqs (st_mrecv n)) (ctxt_user ctx_mrecv) = Some req0"
  "recv_cntr ep0 \<noteq> 0 \<longrightarrow> deref (cntrs (st_mrecv n)) (recv_cntr ep0) \<noteq> None"
  "recv_cq ep0 \<noteq> 0 \<longrightarrow> (\<exists>c. cqs (st_mrecv n) (recv_cq ep0) = Some c \<and> cq_holds c [] [] \<and>
      format c \<in> {FI_CQ_FORMAT_CONTEXT, FI_CQ_FORMAT_MSG, FI_CQ_FORMAT_DATA, FI_CQ_FORMAT_TAGGED})"
  by (simp_all add: mrecv_defs st0_def cq0_def ep0_def status0_def deref_def cq_holds_def
      ceq_holds_def)

lemma st_mrecv_cq:
  "recv_cq ep0 = 16" "cqs (st_mrecv n) 16 = Some (cq0 FI_CQ_FORMAT_TAGGED 48)"
  "format (cq0 FI_CQ_FORMAT_TAGGED 48) = FI_CQ_FORMAT_TAGGED"
  "error_code (status0 n) = 0" "nbytes (status0 n) = n" "status_context (status0 n) = 48"
  "mq_posted (st_mrecv n) = []" "mreqs (st_mrecv n) = [64 \<mapsto> req0]" "ctxt_user ctx_mrecv = 64"
  by (simp_all add: mrecv_defs st0_def cq0_def ep0_def status0_def)

theorem multi_recv_rearm_witness:
  "(\<exists>st' c' a e. poll_completion env0 16 (status0 20) (st_mrecv 20) = Some (Return 1, st') \<and>
     mq_posted st' = [\<lparr>post_tag = 7, post_tagsel = 255, post_flags = 0, post_buf = 4116,
                       post_len = 80, post_context = 48\<rparr>] \<and>
     map_option req_offset (mreqs st' 64) = Some 20 \<and>
     cqs st' 16 = Some c' \<and> cq_holds c' [a] [] \<and> ev_at (events c') a = Some e \<and>
     error e = 0 \<and> entry_len FI_CQ_FORMAT_TAGGED (cqe e) = Some 20) \<and>
   (\<exists>st' c' a. poll_completion env0 16 (status0 20) ((st_mrecv 20)\<lparr>mq_irecv_rc := 5\<rparr>)
       = Some (Return (- 256), st') \<and>
     mq_posted st' = [] \<and> map_option req_offset (mreqs st' 64) = Some 20 \<and>
     cqs st' 16 = Some c' \<and> cq_holds c' [a] [])"
proof -
  have room: "req_offset req0 + nbytes (status0 20) + req_min_buf_size req0 \<le> req_len req0"
    by (simp add: req0_def status0_def)
  have ok: "mq_irecv_rc (st_mrecv 20) = PSM_OK"
    by (simp add: mrecv_defs st0_def PSM_OK_def)
  from multi_recv_rearm [OF st_mrecv_facts room, of env0 16, unfolded st_mrecv_cq] ok
  obtain st' c c' a e where
    "poll_completion env0 16 (status0 20) (st_mrecv 20) = Some (Return 1, st')"
    "mq_posted st' = [] @
        [\<lparr>post_tag = req_tag req0, post_tagsel = req_tagsel req0, post_flags = req_flag req0,
          post_buf = req_buf req0 + (req_offset req0 + 20),
          post_len = req_len req0 - (req_offset req0 + 20), post_context = 48\<rparr>]"
    "mreqs st' = [64 \<mapsto> req0, 64 \<mapsto> req0\<lparr>req_offset := req_offset req0 + 20\<rparr>]"
    "Some (cq0 FI_CQ_FORMAT_TAGGED 48) = Some c"
    "cqs st' 16 = Some c'" "cq_holds c' ([] @ [a]) (tl [])"
    "ev_at (events c') a = Some e" "error e = 0"
    "entry_len (format c) (cqe e) = (if format c = FI_CQ_FORMAT_CONTEXT then None else Some 20)"
    by auto
  then have A: "\<exists>st' c' a e. poll_completion env0 16 (status0 20) (st_mrecv 20) = Some (Return 1, st') \<and>
     mq_posted st' = [\<lparr>post_tag = 7, post_tagsel = 255, post_flags = 0, post_buf = 4116,
                       post_len = 80, post_context = 48\<rparr>] \<and>
     map_option req_offset (mreqs st' 64) = Some 20 \<and>
     cqs st' 16 = Some c' \<and> cq_holds c' [a] [] \<and> ev_at (events c') a = Some e \<and>
     error e = 0 \<and> entry_len FI_CQ_FORMAT_TAGGED (cqe e) = Some 20"
    by (intro exI [of _ st'] exI [of _ c'] exI [of _ a] exI [of _ e])
       (auto simp add: req0_def cq0_def)
  let ?st = "(st_mrecv 20)\<lparr>mq_irecv_rc := 5\<rparr>"
  have f: "deref (ctxts ?st) (status_context (status0 20)) = Some ctx_mrecv"
    "deref (eps ?st) (ctxt_ep ctx_mrecv) = Some ep0"
    "deref (mreqs ?st) (ctxt_user ctx_mrecv) = Some req0"
    "recv_cntr ep0 \<noteq> 0 \<longrightarrow> deref (cntrs ?st) (recv_cntr ep0) \<noteq> None"
    "recv_cq ep0 \<noteq> 0 \<longrightarrow> (\<exists>c. cqs ?st (recv_cq ep0) = Some c \<and> cq_holds c [] [] \<and>
      format c \<in> {FI_CQ_FORMAT_CONTEXT, FI_CQ_FORMAT_MSG, FI_CQ_FORMAT_DATA, FI_CQ_FORMAT_TAGGED})"
    using st_mrecv_facts by simp_all
  have g: "mq_irecv_rc ?st = 5" "psmx_errno env0 5 = - 256" "(5 :: int) \<noteq> PSM_OK"
    "mq_posted ?st = []" "mreqs ?st = [64 \<mapsto> req0]" "cqs ?st 16 = Some (cq0 FI_CQ_FORMAT_TAGGED 48)"
    by (simp_all add: env0_def PSM_OK_def st_mrecv_cq)
  from multi_recv_rearm [OF f(1) st_mrecv_facts(2) f(2,3,4,5) room, of env0 16]
  obtain st' c c' a e where
    "poll_completion env0 16 (status0 20) ?st = Some (Return (- 256), st')"
    "mq_posted st' = []"
    "mreqs st' = [64 \<mapsto> req0, 64 \<mapsto> req0\<lparr>req_offset := req_offset req0 + 20\<rparr>]"
    "cqs st' 16 = Some c'" "cq_holds c' ([] @ [a]) (tl [])"
    unfolding g st_mrecv_cq using g(3) by auto
  then have B: "\<exists>st' c' a. poll_completion env0 16 (status0 20) ?st = Some (Return (- 256), st') \<and>
     mq_posted st' = [] \<and> map_option req_offset (mreqs st' 64) = Some 20 \<and>
     cqs st' 16 = Some c' \<and> cq_holds c' [a] []"
    by (intro exI [of _ st'] exI [of _ c'] exI [of _ a]) (auto simp add: req0_def)
  from A B show ?thesis by blast
qed

theorem multi_recv_final_witness:
  "\<exists>st' c' a b ea eb. poll_completion env0 16 (status0 95) (st_mrecv 95) = Some (Return 1, st') \<and>
     mq_posted st' = [] \<and> mreqs st' 64 = None \<and>
     cqs st' 16 = Some c' \<and> cq_holds c' [a, b] [] \<and>
     ev_at (events c') a = Some ea \<and> ev_at (events c') b = Some eb \<and>
     error ea = 0 \<and> entry_len FI_CQ_FORMAT_TAGGED (cqe ea) = Some 95 \<and>
     error eb = 0 \<and> entry_len FI_CQ_FORMAT_TAGGED (cqe eb) = Some 100 \<and>
     entry_flags FI_CQ_FORMAT_TAGGED (cqe eb) = Some (FI_MULTI_RECV env0) \<and>
     entry_data FI_CQ_FORMAT_TAGGED (cqe eb) = Some 5"
proof -
  have full: "\<not> req_offset req0 + nbytes (status0 95) + req_min_buf_size req0 \<le> req_len req0"
    by (simp add: req0_def status0_def)
  from multi_recv_final [OF st_mrecv_facts full, of env0 16, unfolded st_mrecv_cq]
  obtain st' c c' a b ea eb where
    "poll_completion env0 16 (status0 95) (st_mrecv 95) = Some (Return 1, st')"
    "mq_posted st' = []"
    "mreqs st' = [64 \<mapsto> req0](64 := None)"
    "Some (cq0 FI_CQ_FORMAT_TAGGED 48) = Some c"
    "cqs st' 16 = Some c'" "cq_holds c' ([] @ [a, b]) (tl (tl []))"
    "ev_at (events c') a = Some ea" "ev_at (events c') b = Some eb"
    "error ea = 0"
    "entry_len (format c) (cqe ea) = (if format c = FI_CQ_FORMAT_CONTEXT then None else Some 95)"
    "error eb = 0"
    "entry_len (format c) (cqe eb)
           = (if format c = FI_CQ_FORMAT_CONTEXT then None else Some (req_len req0))"
    "entry_flags (format c) (cqe eb)
           = (if format c = FI_CQ_FORMAT_CONTEXT then None else Some (FI_MULTI_RECV env0))"
    "entry_data (format c) (cqe eb)
           = (if format c = FI_CQ_FORMAT_DATA \<or> format c = FI_CQ_FORMAT_TAGGED
              then Some (req_len req0 - (req_offset req0 + 95)) else None)"
    by auto
  then show ?thesis
    by (intro exI [of _ st'] exI [of _ c'] exI [of _ a] exI [of _ b] exI [of _ ea] exI [of _ eb])
       (auto simp add: req0_def cq0_def)
qed


section \<open>Events injected by write\<close>





end
